theory Spec2Isabelle
  imports Main
begin

section \<open>The download script \<open>scripts/download-models.py\<close>\<close>

text \<open>
  The script parses \<open>--model\<close> and \<open>--output\<close>, joins the output name to the base
  directory of the environment variable \<open>MODELS_DIR\<close> (default \<open>/models\<close>), creates the
  destination directory and hands the download to \<open>huggingface_hub.snapshot_download\<close>.

  The two functions of the script, \<open>download_model\<close> and \<open>main\<close>, are embedded below
  line by line. What they call is modelled as follows.
  \<^item> Strings are lists of characters; a character stands for a code point below 256.
  \<^item> Exceptions are values (\<open>exn\<close>); a call returns \<open>None\<close> or \<open>Some\<close> exception
    together with the world it leaves.
  \<^item> The world is the environment, the working directory, the file tree and the
    trace of what the process has done so far: lines printed, the directory
    creation requested, the download requested.
  \<^item> \<open>os.path.join\<close>, \<open>os.environ.get\<close>, \<open>pathlib.Path\<close> and \<open>argparse\<close> follow the
    CPython 3.11 library on a POSIX system.
  \<^item> \<open>snapshot_download\<close> is an opaque collaborator: a parameter \<open>hub\<close> of the
    model, about which nothing is assumed.
\<close>

subsection \<open>Strings\<close>

definition startswith :: "string \<Rightarrow> string \<Rightarrow> bool" where
  \<comment> \<open>\<open>s.startswith(p)\<close>\<close>
  "startswith s p = (take (length p) s = p)"

definition endswith :: "string \<Rightarrow> string \<Rightarrow> bool" where
  \<comment> \<open>\<open>s.endswith(p)\<close>\<close>
  "endswith s p = (length p \<le> length s \<and> drop (length s - length p) s = p)"

fun split_on :: "char \<Rightarrow> string \<Rightarrow> string list" where
  \<comment> \<open>\<open>s.split(c)\<close>: always at least one piece\<close>
  "split_on c [] = [[]]"
| "split_on c (x # xs) =
     (if x = c then [] # split_on c xs
      else (case split_on c xs of
              [] \<Rightarrow> [[x]]
            | p # ps \<Rightarrow> (x # p) # ps))"

fun join_with :: "string \<Rightarrow> string list \<Rightarrow> string" where
  \<comment> \<open>\<open>sep.join(xs)\<close>\<close>
  "join_with sep [] = []"
| "join_with sep [x] = x"
| "join_with sep (x # y # ys) = x @ sep @ join_with sep (y # ys)"

definition hex_digit :: "nat \<Rightarrow> char" where
  "hex_digit n = ''0123456789abcdef'' ! (n mod 16)"

definition printable :: "char \<Rightarrow> bool" where
  \<comment> \<open>\<open>str.isprintable\<close> on the code points below 256\<close>
  "printable c =
     (let n = of_char c :: nat
      in 32 \<le> n \<and> n \<noteq> 127 \<and> \<not> (128 \<le> n \<and> n \<le> 160) \<and> n \<noteq> 173)"

definition repr_char :: "char \<Rightarrow> char \<Rightarrow> string" where
  \<comment> \<open>one character inside \<open>repr(s)\<close>, for the quote that \<open>repr\<close> chose\<close>
  "repr_char quote c =
     (if c = quote \<or> c = CHR 0x5C then [CHR 0x5C, c]
      else if c = CHR 0x09 then [CHR 0x5C, CHR ''t'']
      else if c = CHR 0x0A then [CHR 0x5C, CHR ''n'']
      else if c = CHR 0x0D then [CHR 0x5C, CHR ''r'']
      else if printable c then [c]
      else [CHR 0x5C, CHR ''x'', hex_digit (of_char c div 16), hex_digit (of_char c)])"

definition repr_str :: "string \<Rightarrow> string" where
  \<comment> \<open>\<open>repr(s)\<close>: double quotes only when \<open>s\<close> has a single quote and no double one\<close>
  "repr_str s =
     (let quote = (if CHR 0x27 \<in> set s \<and> CHR 0x22 \<notin> set s then CHR 0x22 else CHR 0x27)
      in [quote] @ concat (map (repr_char quote) s) @ [quote])"

subsection \<open>Exceptions\<close>

datatype errno = ENOENT | EACCES | EEXIST | ENOTDIR | ENAMETOOLONG

datatype exn =
    OSError errno string
      \<comment> \<open>\<open>FileNotFoundError\<close>, \<open>PermissionError\<close>, \<open>FileExistsError\<close>,
          \<open>NotADirectoryError\<close> or a plain \<open>OSError\<close>, with the file name\<close>
  | Exception string
      \<comment> \<open>any other instance of \<open>Exception\<close>, with its \<open>str\<close>\<close>
  | SystemExit int
  | BaseException string
      \<comment> \<open>an exception outside \<open>Exception\<close>, such as \<open>KeyboardInterrupt\<close>\<close>

fun is_Exception :: "exn \<Rightarrow> bool" where
  \<comment> \<open>\<open>isinstance(e, Exception)\<close>: what \<open>except Exception\<close> catches\<close>
  "is_Exception (OSError _ _) = True"
| "is_Exception (Exception _) = True"
| "is_Exception (SystemExit _) = False"
| "is_Exception (BaseException _) = False"

fun strerror :: "errno \<Rightarrow> string" where
  "strerror ENOENT = ''[Errno 2] No such file or directory''"
| "strerror EACCES = ''[Errno 13] Permission denied''"
| "strerror EEXIST = ''[Errno 17] File exists''"
| "strerror ENOTDIR = ''[Errno 20] Not a directory''"
| "strerror ENAMETOOLONG = ''[Errno 36] File name too long''"

fun str_exn :: "exn \<Rightarrow> string" where
  \<comment> \<open>\<open>str(e)\<close>, which the f-string \<open>{e}\<close> prints\<close>
  "str_exn (OSError e name) = strerror e @ '': '' @ repr_str name"
| "str_exn (Exception msg) = msg"
| "str_exn (SystemExit code) = []"
| "str_exn (BaseException msg) = msg"

subsection \<open>\<open>os.environ.get\<close> and \<open>os.path.join\<close>\<close>

type_synonym environ = "string \<rightharpoonup> string"

definition environ_get :: "environ \<Rightarrow> string \<Rightarrow> string \<Rightarrow> string" where
  \<comment> \<open>\<open>os.environ.get(key, default)\<close>\<close>
  "environ_get env key dflt = (case env key of None \<Rightarrow> dflt | Some v \<Rightarrow> v)"

definition path_join :: "string \<Rightarrow> string \<Rightarrow> string" where
  \<comment> \<open>\<open>posixpath.join(a, b)\<close>\<close>
  "path_join a b =
     (if startswith b ''/'' then b
      else if a = [] \<or> endswith a ''/'' then a @ b
      else a @ ''/'' @ b)"

subsection \<open>\<open>pathlib\<close>: pure paths\<close>

datatype pure_path = PurePath (root: string) (parts: "string list")
  \<comment> \<open>\<open>root\<close> is empty, \<open>/\<close> or \<open>//\<close>; \<open>parts\<close> are the names after the root\<close>

definition splitroot :: "string \<Rightarrow> string \<times> string" where
  \<comment> \<open>\<open>_PosixFlavour.splitroot\<close>: exactly two leading slashes are kept\<close>
  "splitroot part =
     (if startswith part ''/'' then
        (let stripped_part = dropWhile (\<lambda>c. c = CHR ''/'') part
         in if length part - length stripped_part = 2 then (''//'', stripped_part)
            else (''/'', stripped_part))
      else ([], part))"

definition Path :: "string \<Rightarrow> pure_path" where
  \<comment> \<open>\<open>Path(s)\<close>: empty names and \<open>.\<close> are dropped\<close>
  "Path s =
     (case splitroot s of
        (rt, rel) \<Rightarrow> PurePath rt (filter (\<lambda>x. x \<noteq> [] \<and> x \<noteq> ''.'') (split_on CHR ''/'' rel)))"

definition str_path :: "pure_path \<Rightarrow> string" where
  \<comment> \<open>\<open>str(p)\<close>\<close>
  "str_path p =
     (if root p = [] \<and> parts p = [] then ''.''
      else root p @ join_with ''/'' (parts p))"

definition parent :: "pure_path \<Rightarrow> pure_path" where
  \<comment> \<open>\<open>p.parent\<close>: a path without names is its own parent\<close>
  "parent p = PurePath (root p) (butlast (parts p))"

subsection \<open>The file tree\<close>

datatype node = Directory bool | Regular_file
  \<comment> \<open>a directory is writable or not\<close>

type_synonym location = "string list"
  \<comment> \<open>the names from the root of the tree down to a node\<close>

type_synonym filesystem = "location \<rightharpoonup> node"

fun walk :: "filesystem \<Rightarrow> location \<Rightarrow> string list \<Rightarrow> errno + location" where
  \<comment> \<open>path resolution: every step starts from a directory\<close>
  "walk tree loc [] = Inr loc"
| "walk tree loc (c # cs) =
     (case tree loc of
        None \<Rightarrow> Inl ENOENT
      | Some Regular_file \<Rightarrow> Inl ENOTDIR
      | Some (Directory _) \<Rightarrow>
          walk tree (if c = ''..'' then butlast loc else if c = ''.'' then loc else loc @ [c]) cs)"

definition start_of :: "location \<Rightarrow> pure_path \<Rightarrow> location" where
  \<comment> \<open>a path with a root starts at the root, another one at the working directory\<close>
  "start_of wd p = (if root p = [] then wd else [])"

definition is_dir :: "filesystem \<Rightarrow> location \<Rightarrow> pure_path \<Rightarrow> bool" where
  \<comment> \<open>\<open>p.is_dir()\<close>: false also when the path cannot be resolved\<close>
  "is_dir tree wd p =
     (case walk tree (start_of wd p) (parts p) of
        Inl _ \<Rightarrow> False
      | Inr loc \<Rightarrow> (case tree loc of Some (Directory _) \<Rightarrow> True | _ \<Rightarrow> False))"

definition os_mkdir :: "filesystem \<Rightarrow> location \<Rightarrow> pure_path \<Rightarrow> errno + filesystem" where
  \<comment> \<open>\<open>os.mkdir(p)\<close> on the tree: the new directory is writable. The errors are those
      that the tree decides; what else a system refuses (a name that is too long, a
      file system that is full or read-only) is not in the tree\<close>
  "os_mkdir tree wd p =
     (if parts p = [] then Inl EEXIST
      else
        (case walk tree (start_of wd p) (butlast (parts p)) of
           Inl e \<Rightarrow> Inl e
         | Inr dir \<Rightarrow>
             (case tree dir of
                None \<Rightarrow> Inl ENOENT
              | Some Regular_file \<Rightarrow> Inl ENOTDIR
              | Some (Directory writable) \<Rightarrow>
                  (let c = last (parts p)
                   in if c = ''..'' \<or> c = ''.'' \<or> tree (dir @ [c]) \<noteq> None then Inl EEXIST
                      else if \<not> writable then Inl EACCES
                      else Inr (tree(dir @ [c] \<mapsto> Directory True))))))"

lemma parent_eq_iff: "parent p = p \<longleftrightarrow> parts p = []"
proof (cases p)
  case (PurePath rt ps)
  have "butlast ps = ps \<longleftrightarrow> ps = []"
    by (cases ps rule: rev_cases) auto
  with PurePath show ?thesis
    by (simp add: parent_def)
qed

lemma parts_parent_shorter: "parent p \<noteq> p \<Longrightarrow> length (parts (parent p)) < length (parts p)"
  unfolding parent_eq_iff by (cases "parts p" rule: rev_cases) (auto simp: parent_def)

function Path_mkdir ::
  "filesystem \<Rightarrow> location \<Rightarrow> pure_path \<Rightarrow> bool \<Rightarrow> bool \<Rightarrow> exn option \<times> filesystem" where
  \<comment> \<open>\<open>p.mkdir(parents=parents, exist_ok=exist_ok)\<close>: what it raises, if anything, and
      the tree it leaves; the parents made before an error stay\<close>
  "Path_mkdir tree wd p parents exist_ok =
     (case os_mkdir tree wd p of
        Inr tree' \<Rightarrow> (None, tree')
      | Inl ENOENT \<Rightarrow>
          if \<not> parents \<or> parent p = p then (Some (OSError ENOENT (str_path p)), tree)
          else
            (case Path_mkdir tree wd (parent p) True True of
               (Some e, tree1) \<Rightarrow> (Some e, tree1)
             | (None, tree1) \<Rightarrow> Path_mkdir tree1 wd p False exist_ok)
      | Inl e \<Rightarrow>
          if \<not> exist_ok \<or> \<not> is_dir tree wd p then (Some (OSError e (str_path p)), tree)
          else (None, tree))"
  by pat_completeness auto
termination
  by (relation "measure (\<lambda>(tree, wd, p, parents, exist_ok).
        2 * length (parts p) + (if parents then 1 else 0))")
     (auto dest: parts_parent_shorter)

declare Path_mkdir.simps [simp del]

subsection \<open>\<open>argparse\<close>: the parser that \<open>main\<close> builds\<close>

text \<open>
  \<open>ArgumentParser(description=...)\<close> adds the help action under \<open>-h\<close> and \<open>--help\<close>;
  the two \<open>add_argument\<close> calls add a storing action each. Prefix characters are
  \<open>-\<close>, abbreviations are allowed, there are no positional arguments. The functions
  below are \<open>_parse_optional\<close>, \<open>_get_option_tuples\<close>, \<open>_match_argument\<close> and the
  loops of \<open>_parse_known_args\<close> for this parser.
\<close>

datatype action = Help_action | Store_model | Store_output

definition option_string_actions :: "(string \<times> action) list" where
  "option_string_actions =
     [(''-h'', Help_action), (''--help'', Help_action),
      (''--model'', Store_model), (''--output'', Store_output)]"

datatype argparse_error =
    Ambiguous_option string
  | Unexpected_option_string string
  | Expected_one_argument action
  | Ignored_explicit_argument action string
  | Arguments_required "action list"
  | Unrecognized_arguments "string list"

type_synonym option_tuple = "action option \<times> string \<times> string option \<times> string option"
  \<comment> \<open>action, option string, separator, explicit argument\<close>

definition str_partition :: "char \<Rightarrow> string \<Rightarrow> string \<times> string \<times> string" where
  \<comment> \<open>\<open>s.partition(c)\<close>\<close>
  "str_partition c s =
     (let rest = dropWhile (\<lambda>x. x \<noteq> c) s
      in if rest = [] then (s, [], []) else (takeWhile (\<lambda>x. x \<noteq> c) s, [c], tl rest))"

definition is_digit :: "char \<Rightarrow> bool" where
  "is_digit c = (c \<in> set ''0123456789'')"

definition decimal_like :: "string \<Rightarrow> bool" where
  \<comment> \<open>digits, or digits (maybe none), a dot and digits\<close>
  "decimal_like s =
     (let whole = takeWhile is_digit s; rest = dropWhile is_digit s
      in (whole \<noteq> [] \<and> rest = []) \<or>
         (case rest of
            [] \<Rightarrow> False
          | c # frac \<Rightarrow> c = CHR ''.'' \<and> frac \<noteq> [] \<and> list_all is_digit frac))"

definition negative_number :: "string \<Rightarrow> bool" where
  \<comment> \<open>the parser's \<open>_negative_number_matcher\<close>; \<open>$\<close> also matches before a last newline\<close>
  "negative_number s =
     (case s of
        [] \<Rightarrow> False
      | c # r \<Rightarrow> c = CHR ''-'' \<and>
          (decimal_like r \<or> (r \<noteq> [] \<and> last r = CHR 0x0A \<and> decimal_like (butlast r))))"

definition get_option_tuples :: "string \<Rightarrow> argparse_error + option_tuple list" where
  "get_option_tuples option_string =
     (if startswith option_string ''--'' then
        (case str_partition CHR ''='' option_string of
           (option_prefix, sep, explicit_arg) \<Rightarrow>
             Inr (map (\<lambda>(os, a). (Some a, os,
                         if sep = [] then None else Some sep,
                         if sep = [] then None else Some explicit_arg))
                    (filter (\<lambda>(os, a). startswith os option_prefix) option_string_actions)))
      else if startswith option_string ''-'' \<and> 2 \<le> length option_string then
        Inr (concat (map (\<lambda>(os, a).
               if os = take 2 option_string then
                 [(Some a, os, Some [], Some (drop 2 option_string))]
               else if startswith os option_string then [(Some a, os, None, None)]
               else []) option_string_actions))
      else Inl (Unexpected_option_string option_string))"

definition parse_optional :: "string \<Rightarrow> argparse_error + option_tuple option" where
  \<comment> \<open>\<open>None\<close>: the string is an argument; \<open>Some\<close>: it is read as an option\<close>
  "parse_optional arg_string =
     (if arg_string = [] then Inr None
      else if hd arg_string \<noteq> CHR ''-'' then Inr None
      else
        (case map_of option_string_actions arg_string of
           Some a \<Rightarrow> Inr (Some (Some a, arg_string, None, None))
         | None \<Rightarrow>
             if length arg_string = 1 then Inr None
             else
               (case str_partition CHR ''='' arg_string of
                  (option_string, sep, explicit_arg) \<Rightarrow>
                    (case (if sep \<noteq> [] then map_of option_string_actions option_string
                           else None) of
                       Some a \<Rightarrow> Inr (Some (Some a, option_string, Some sep, Some explicit_arg))
                     | None \<Rightarrow>
                         (case get_option_tuples arg_string of
                            Inl e \<Rightarrow> Inl e
                          | Inr option_tuples \<Rightarrow>
                              if 1 < length option_tuples then Inl (Ambiguous_option arg_string)
                              else if length option_tuples = 1 then Inr (Some (hd option_tuples))
                              else if negative_number arg_string then Inr None
                              else if CHR '' '' \<in> set arg_string then Inr None
                              else Inr (Some (None, arg_string, None, None)))))))"

datatype tag = Arg | Opt option_tuple | Dashes
  \<comment> \<open>the letters \<open>A\<close>, \<open>O\<close> and \<open>-\<close> of the argument pattern\<close>

fun classify :: "string list \<Rightarrow> argparse_error + (string \<times> tag) list" where
  \<comment> \<open>the first loop of \<open>_parse_known_args\<close>: after \<open>--\<close> everything is an argument\<close>
  "classify [] = Inr []"
| "classify (arg_string # arg_strings) =
     (if arg_string = ''--'' then
        Inr ((arg_string, Dashes) # map (\<lambda>s. (s, Arg)) arg_strings)
      else
        (case parse_optional arg_string of
           Inl e \<Rightarrow> Inl e
         | Inr option_tuple \<Rightarrow>
             (case classify arg_strings of
                Inl e \<Rightarrow> Inl e
              | Inr rest \<Rightarrow>
                  Inr ((arg_string, case option_tuple of None \<Rightarrow> Arg | Some t \<Rightarrow> Opt t) # rest))))"

fun match_argument :: "action \<Rightarrow> tag list \<Rightarrow> nat option" where
  \<comment> \<open>how many strings the action takes: the help action none, a storing action
      the one argument that must follow\<close>
  "match_argument Help_action pattern = Some 0"
| "match_argument a (Arg # pattern) = Some 1"
| "match_argument a pattern = None"

type_synonym action_tuple = "action \<times> string list"

function consume_optional ::
  "action \<Rightarrow> string \<Rightarrow> string option \<Rightarrow> string option \<Rightarrow> (string \<times> tag) list \<Rightarrow>
   action_tuple list \<Rightarrow>
   argparse_error + (action_tuple list \<times> string list \<times> (string \<times> tag) list)" where
  \<comment> \<open>the loop of \<open>consume_optional\<close> for a known option: the actions to take, the
      strings left over, and the strings after the option and its argument\<close>
  "consume_optional action option_string sep explicit_arg following action_tuples =
     (case explicit_arg of
        Some ex \<Rightarrow>
          (case match_argument action [Arg] of
             None \<Rightarrow> Inl (Expected_one_argument action)
           | Some arg_count \<Rightarrow>
               if arg_count = 0 \<and> option_string ! 1 \<noteq> CHR ''-'' \<and> ex \<noteq> [] then
                 if (sep \<noteq> None \<and> sep \<noteq> Some []) \<or> hd ex = CHR ''-'' then
                   Inl (Ignored_explicit_argument action ex)
                 else
                   (let action_tuples' = action_tuples @ [(action, [])];
                        option_string' = [hd option_string, hd ex]
                    in case map_of option_string_actions option_string' of
                         Some action' \<Rightarrow>
                           if tl ex = [] then
                             consume_optional action' option_string' None None
                               following action_tuples'
                           else if hd (tl ex) = CHR ''='' then
                             consume_optional action' option_string' (Some ''='')
                               (Some (tl (tl ex))) following action_tuples'
                           else
                             consume_optional action' option_string' (Some [])
                               (Some (tl ex)) following action_tuples'
                       | None \<Rightarrow>
                           Inr (action_tuples', [hd option_string # ex], following))
               else if arg_count = 1 then
                 Inr (action_tuples @ [(action, [ex])], [], following)
               else Inl (Ignored_explicit_argument action ex))
      | None \<Rightarrow>
          (case match_argument action (map snd following) of
             None \<Rightarrow> Inl (Expected_one_argument action)
           | Some arg_count \<Rightarrow>
               Inr (action_tuples @ [(action, map fst (take arg_count following))], [],
                    drop arg_count following)))"
  by pat_completeness auto
termination
  by (relation "measure (\<lambda>(action, option_string, sep, explicit_arg, following, action_tuples).
        case explicit_arg of None \<Rightarrow> 0 | Some ex \<Rightarrow> Suc (length ex))")
     auto

declare consume_optional.simps [simp del]

lemma consume_optional_following:
  "consume_optional a os sep ex following ts = Inr (ts', left_over, following') \<Longrightarrow>
   length following' \<le> length following"
proof (induction "case ex of None \<Rightarrow> 0 | Some e \<Rightarrow> Suc (length e)"
         arbitrary: a os sep ex ts rule: less_induct)
  case less
  show ?case
  proof (cases ex)
    case None
    with less.prems show ?thesis
      by (subst (asm) consume_optional.simps) (auto split: option.splits)
  next
    case (Some e)
    show ?thesis
    proof (cases e)
      case Nil
      with Some less.prems show ?thesis
        by (subst (asm) consume_optional.simps) (auto split: option.splits if_splits)
    next
      case (Cons c cs)
      have IH: "\<And>b bs bsep bex bts.
          bex = None \<or> bex = Some cs \<or> bex = Some (tl cs) \<Longrightarrow>
          consume_optional b bs bsep bex following bts = Inr (ts', left_over, following') \<Longrightarrow>
          length following' \<le> length following"
      proof -
        fix b bs bsep bex bts
        assume m: "bex = None \<or> bex = Some cs \<or> bex = Some (tl cs)"
          and r: "consume_optional b bs bsep bex following bts = Inr (ts', left_over, following')"
        from m Some Cons
        have "(case bex of None \<Rightarrow> 0 | Some e \<Rightarrow> Suc (length e))
              < (case ex of None \<Rightarrow> 0 | Some e \<Rightarrow> Suc (length e))"
          by auto
        from less.hyps [OF this r] show "length following' \<le> length following" .
      qed
      from less.prems Some Cons show ?thesis
        by (subst (asm) consume_optional.simps)
           (auto simp: Let_def split: option.splits if_splits intro: IH)
    qed
  qed
qed

datatype argparse_output = Help_message | Usage_error argparse_error
  \<comment> \<open>what the parser prints before it exits: the help on standard output, or the
      usage and an error on standard error\<close>

datatype parse_result = Namespace string string | Parser_exit int argparse_output
  \<comment> \<open>the namespace with \<open>model\<close> and \<open>output\<close>, or \<open>SystemExit\<close> with its status\<close>

fun take_actions ::
  "action_tuple list \<Rightarrow> string option \<times> string option \<Rightarrow>
   unit + (string option \<times> string option)" where
  \<comment> \<open>\<open>take_action\<close> for each tuple: a storing action sets its attribute, the help
      action prints the help and exits (\<open>Inl\<close>)\<close>
  "take_actions [] ns = Inr ns"
| "take_actions ((Help_action, args) # ts) ns = Inl ()"
| "take_actions ((Store_model, args) # ts) (m, out) = take_actions ts (Some (hd args), out)"
| "take_actions ((Store_output, args) # ts) (m, out) = take_actions ts (m, Some (hd args))"

function consume ::
  "(string \<times> tag) list \<Rightarrow> string option \<times> string option \<Rightarrow> string list \<Rightarrow> parse_result" where
  \<comment> \<open>the main loop of \<open>_parse_known_args\<close> and the checks after it; with no
      positional argument to fill, every string that is no option and no option's
      argument is an extra\<close>
  "consume [] ns extras =
     (let required_actions =
            (case fst ns of None \<Rightarrow> [Store_model] | Some _ \<Rightarrow> []) @
            (case snd ns of None \<Rightarrow> [Store_output] | Some _ \<Rightarrow> [])
      in if required_actions \<noteq> [] then
           Parser_exit 2 (Usage_error (Arguments_required required_actions))
         else if extras \<noteq> [] then
           Parser_exit 2 (Usage_error (Unrecognized_arguments extras))
         else Namespace (the (fst ns)) (the (snd ns)))"
| "consume ((s, Arg) # following) ns extras = consume following ns (extras @ [s])"
| "consume ((s, Dashes) # following) ns extras = consume following ns (extras @ [s])"
| "consume ((s, Opt (None, option_string, sep, explicit_arg)) # following) ns extras =
     consume following ns (extras @ [s])"
| "consume ((s, Opt (Some action, option_string, sep, explicit_arg)) # following) ns extras =
     (case consume_optional action option_string sep explicit_arg following [] of
        Inl e \<Rightarrow> Parser_exit 2 (Usage_error e)
      | Inr (action_tuples, left_over, following') \<Rightarrow>
          (case take_actions action_tuples ns of
             Inl _ \<Rightarrow> Parser_exit 0 Help_message
           | Inr ns' \<Rightarrow> consume following' ns' (extras @ left_over)))"
  by pat_completeness auto
termination
  by (relation "measure (\<lambda>(following, ns, extras). length following)")
     (auto dest: consume_optional_following)

definition parse_args :: "string list \<Rightarrow> parse_result" where
  \<comment> \<open>\<open>parser.parse_args()\<close> on \<open>sys.argv[1:]\<close>; an ambiguous option is an error
      before any action is taken\<close>
  "parse_args args =
     (case classify args of
        Inl e \<Rightarrow> Parser_exit 2 (Usage_error e)
      | Inr tagged \<Rightarrow> consume tagged (None, None) [])"

subsection \<open>The process and its collaborators\<close>

record download_call =
  repo_id :: string
  local_dir :: string
  local_dir_use_symlinks :: bool
  resume_download :: bool

datatype event =
    Stdout string
      \<comment> \<open>a line that \<open>print\<close> wrote\<close>
  | Argparse argparse_output
      \<comment> \<open>what the argument parser wrote before exiting\<close>
  | Mkdir string bool bool
      \<comment> \<open>\<open>Path(s).mkdir(parents=..., exist_ok=...)\<close> was called\<close>
  | Snapshot_download download_call
      \<comment> \<open>\<open>snapshot_download(...)\<close> was called\<close>

record world =
  environ :: environ
  cwd :: location
  tree :: filesystem
  trace :: "event list"

type_synonym hub = "download_call \<Rightarrow> filesystem \<Rightarrow> exn option \<times> filesystem"
  \<comment> \<open>the collaborator: it returns or raises, and leaves a file tree\<close>

definition log :: "event \<Rightarrow> world \<Rightarrow> world" where
  "log e w = w\<lparr>trace := trace w @ [e]\<rparr>"

definition py_print :: "string \<Rightarrow> world \<Rightarrow> exn option \<times> world" where
  \<comment> \<open>\<open>print(s)\<close>\<close>
  "py_print s w = (None, log (Stdout s) w)"

definition mkdir :: "string \<Rightarrow> bool \<Rightarrow> bool \<Rightarrow> world \<Rightarrow> exn option \<times> world" where
  \<comment> \<open>\<open>Path(s).mkdir(parents=parents, exist_ok=exist_ok)\<close> in the world\<close>
  "mkdir s parents exist_ok w =
     (let w' = log (Mkdir s parents exist_ok) w
      in case Path_mkdir (tree w') (cwd w') (Path s) parents exist_ok of
           (r, tree') \<Rightarrow> (r, w'\<lparr>tree := tree'\<rparr>))"

definition snapshot_download :: "hub \<Rightarrow> download_call \<Rightarrow> world \<Rightarrow> exn option \<times> world" where
  \<comment> \<open>the call of the collaborator in the world\<close>
  "snapshot_download hub call w =
     (let w' = log (Snapshot_download call) w
      in case hub call (tree w') of (r, tree') \<Rightarrow> (r, w'\<lparr>tree := tree'\<rparr>))"

definition sys_exit :: "int \<Rightarrow> world \<Rightarrow> exn option \<times> world" where
  \<comment> \<open>\<open>sys.exit(code)\<close>\<close>
  "sys_exit code w = (Some (SystemExit code), w)"

definition seq ::
  "(world \<Rightarrow> exn option \<times> world) \<Rightarrow> (world \<Rightarrow> exn option \<times> world) \<Rightarrow>
   world \<Rightarrow> exn option \<times> world" where
  \<comment> \<open>one statement after another: an exception skips the rest\<close>
  "seq f g w = (case f w of (None, w') \<Rightarrow> g w' | (Some e, w') \<Rightarrow> (Some e, w'))"

definition try_except_Exception ::
  "(world \<Rightarrow> exn option \<times> world) \<Rightarrow> (exn \<Rightarrow> world \<Rightarrow> exn option \<times> world) \<Rightarrow>
   world \<Rightarrow> exn option \<times> world" where
  \<comment> \<open>\<open>try: body except Exception as e: handler\<close>\<close>
  "try_except_Exception body handler w =
     (case body w of
        (None, w') \<Rightarrow> (None, w')
      | (Some e, w') \<Rightarrow> if is_Exception e then handler e w' else (Some e, w'))"

subsection \<open>The script\<close>

definition download_model :: "hub \<Rightarrow> string \<Rightarrow> string \<Rightarrow> world \<Rightarrow> exn option \<times> world" where
  "download_model hub model_name output_dir =
     try_except_Exception
       (seq (py_print (''Downloading '' @ model_name @ '' to '' @ output_dir @ ''...''))
       (seq (mkdir output_dir True True)
       (seq (snapshot_download hub
               \<lparr>repo_id = model_name, local_dir = output_dir,
                local_dir_use_symlinks = False, resume_download = True\<rparr>)
            (py_print (''Successfully downloaded '' @ model_name)))))
       (\<lambda>e. seq (py_print (''Error downloading '' @ model_name @ '': '' @ str_exn e))
                 (sys_exit 1))"

definition main :: "hub \<Rightarrow> string list \<Rightarrow> world \<Rightarrow> exn option \<times> world" where
  \<comment> \<open>\<open>args\<close> is \<open>sys.argv[1:]\<close>\<close>
  "main hub args w =
     (case parse_args args of
        Parser_exit status out \<Rightarrow> sys_exit status (log (Argparse out) w)
      | Namespace args_model args_output \<Rightarrow>
          (let models_dir = environ_get (environ w) ''MODELS_DIR'' ''/models'';
               output_path = path_join models_dir args_output
           in download_model hub args_model output_path w))"

datatype exit = Exited int | Killed exn
  \<comment> \<open>how the process ends: with a status, or by an exception that is no
      \<open>SystemExit\<close> and that nothing caught\<close>

definition script :: "hub \<Rightarrow> string list \<Rightarrow> world \<Rightarrow> exit \<times> world" where
  \<comment> \<open>\<open>if __name__ == "__main__": main()\<close>, and the interpreter's exit\<close>
  "script hub args w =
     (case main hub args w of
        (None, w') \<Rightarrow> (Exited 0, w')
      | (Some (SystemExit code), w') \<Rightarrow> (Exited code, w')
      | (Some e, w') \<Rightarrow> (Killed e, w'))"

subsection \<open>The script over any directory creation\<close>

text \<open>
  The file tree above decides only some of the errors of \<open>Path.mkdir\<close>. To speak of
  every error of the creation, the same three functions are given once more with the
  statement \<open>Path(output_dir).mkdir(parents=True, exist_ok=True)\<close> as a parameter, as the
  collaborator is: any step on the world that returns or raises. With \<open>mkdir\<close> for it
  they are the functions above.
\<close>

type_synonym creation = "string \<Rightarrow> bool \<Rightarrow> bool \<Rightarrow> world \<Rightarrow> exn option \<times> world"

definition download_model_by ::
  "creation \<Rightarrow> hub \<Rightarrow> string \<Rightarrow> string \<Rightarrow> world \<Rightarrow> exn option \<times> world" where
  "download_model_by creation hub model_name output_dir =
     try_except_Exception
       (seq (py_print (''Downloading '' @ model_name @ '' to '' @ output_dir @ ''...''))
       (seq (creation output_dir True True)
       (seq (snapshot_download hub
               \<lparr>repo_id = model_name, local_dir = output_dir,
                local_dir_use_symlinks = False, resume_download = True\<rparr>)
            (py_print (''Successfully downloaded '' @ model_name)))))
       (\<lambda>e. seq (py_print (''Error downloading '' @ model_name @ '': '' @ str_exn e))
                 (sys_exit 1))"

definition main_by :: "creation \<Rightarrow> hub \<Rightarrow> string list \<Rightarrow> world \<Rightarrow> exn option \<times> world" where
  "main_by creation hub args w =
     (case parse_args args of
        Parser_exit status out \<Rightarrow> sys_exit status (log (Argparse out) w)
      | Namespace args_model args_output \<Rightarrow>
          (let models_dir = environ_get (environ w) ''MODELS_DIR'' ''/models'';
               output_path = path_join models_dir args_output
           in download_model_by creation hub args_model output_path w))"

definition script_by :: "creation \<Rightarrow> hub \<Rightarrow> string list \<Rightarrow> world \<Rightarrow> exit \<times> world" where
  "script_by creation hub args w =
     (case main_by creation hub args w of
        (None, w') \<Rightarrow> (Exited 0, w')
      | (Some (SystemExit code), w') \<Rightarrow> (Exited code, w')
      | (Some e, w') \<Rightarrow> (Killed e, w'))"

subsection \<open>Observations on a run\<close>

definition destination :: "world \<Rightarrow> string \<Rightarrow> string" where
  \<comment> \<open>the \<open>output_path\<close> that \<open>main\<close> computes for the \<open>--output\<close> value\<close>
  "destination w args_output =
     path_join (environ_get (environ w) ''MODELS_DIR'' ''/models'') args_output"

definition download_request :: "string \<Rightarrow> string \<Rightarrow> download_call" where
  \<comment> \<open>the keyword arguments of the one \<open>snapshot_download\<close> call in \<open>download_model\<close>\<close>
  "download_request model_name output_dir =
     \<lparr>repo_id = model_name, local_dir = output_dir,
      local_dir_use_symlinks = False, resume_download = True\<rparr>"

fun downloads :: "event list \<Rightarrow> download_call list" where
  \<comment> \<open>the calls of the collaborator in a trace, in order\<close>
  "downloads [] = []"
| "downloads (Snapshot_download c # es) = c # downloads es"
| "downloads (e # es) = downloads es"

fun mkdirs :: "event list \<Rightarrow> string list" where
  \<comment> \<open>the directories whose creation a trace requests, in order\<close>
  "mkdirs [] = []"
| "mkdirs (Mkdir s parents exist_ok # es) = s # mkdirs es"
| "mkdirs (e # es) = mkdirs es"

definition path_exists :: "filesystem \<Rightarrow> location \<Rightarrow> pure_path \<Rightarrow> bool" where
  \<comment> \<open>\<open>p.exists()\<close>\<close>
  "path_exists t wd p =
     (case walk t (start_of wd p) (parts p) of
        Inl _ \<Rightarrow> False
      | Inr loc \<Rightarrow> t loc \<noteq> None)"

definition parents_of :: "pure_path \<Rightarrow> pure_path list" where
  \<comment> \<open>\<open>p.parents\<close>, from the top down\<close>
  "parents_of p = map (\<lambda>n. PurePath (root p) (take n (parts p))) [0..<length (parts p)]"

subsection \<open>What the specification says\<close>

definition base_dir :: "environ \<Rightarrow> string" where
  \<comment> \<open>the value of \<open>MODELS_DIR\<close> when it is set, \<open>/models\<close> when it is unset\<close>
  "base_dir env = (if ''MODELS_DIR'' \<in> dom env then the (env ''MODELS_DIR'') else ''/models'')"

definition resolved_destination :: "environ \<Rightarrow> string \<Rightarrow> string" where
  \<comment> \<open>\<open>join(base_dir, output)\<close>\<close>
  "resolved_destination env output_name = path_join (base_dir env) output_name"

definition names_option :: "string \<Rightarrow> string \<Rightarrow> bool" where
  \<comment> \<open>the argument string gives the long option: in full or abbreviated to a prefix
      longer than \<open>--\<close>, alone or followed by \<open>=\<close> and a value\<close>
  "names_option flag arg_string =
     (let given = takeWhile (\<lambda>c. c \<noteq> CHR ''='') arg_string
      in 3 \<le> length given \<and> startswith flag given)"

definition asks_help :: "string \<Rightarrow> bool" where
  \<comment> \<open>the argument string gives \<open>-h\<close> (alone or at the head of a group of short
      options) or \<open>--help\<close>\<close>
  "asks_help arg_string = (startswith arg_string ''-h'' \<or> names_option ''--help'' arg_string)"

subsection \<open>Options that a parse reads\<close>

fun gives :: "action \<Rightarrow> string \<Rightarrow> bool" where
  \<comment> \<open>the argument string gives the option of the action\<close>
  "gives Help_action s = asks_help s"
| "gives Store_model s = names_option ''--model'' s"
| "gives Store_output s = names_option ''--output'' s"

fun option_actions :: "(string \<times> tag) list \<Rightarrow> action list" where
  \<comment> \<open>the actions of the strings that were read as known options\<close>
  "option_actions [] = []"
| "option_actions ((s, Opt (Some a, option_string, sep, explicit_arg)) # tagged) =
     a # option_actions tagged"
| "option_actions (st # tagged) = option_actions tagged"

subsection \<open>Example runs\<close>

definition example_args :: "string list" where
  "example_args = [''--model'', ''org/example-model'', ''--output'', ''example'']"

definition example_world :: world where
  \<comment> \<open>\<open>MODELS_DIR=/data\<close>, an empty writable root directory, nothing printed yet\<close>
  "example_world =
     \<lparr>environ = [''MODELS_DIR'' \<mapsto> ''/data''], cwd = [],
      tree = [[] \<mapsto> Directory True], trace = []\<rparr>"

definition hub_ok :: hub where
  \<comment> \<open>a collaborator that returns\<close>
  "hub_ok call t = (None, t)"

definition hub_fails :: hub where
  \<comment> \<open>a collaborator that raises\<close>
  "hub_fails call t = (Some (Exception ''404 Client Error''), t)"

definition hub_checks :: hub where
  \<comment> \<open>a collaborator that writes \<open>config.json\<close> into the local directory when it is
      asked for real files and a resumed transfer, and raises otherwise\<close>
  "hub_checks call t =
     (if \<not> local_dir_use_symlinks call \<and> resume_download call then
        (None, t(parts (Path (local_dir call)) @ [''config.json''] \<mapsto> Regular_file))
      else (Some (Exception ''unexpected arguments''), t))"

definition refused_creation :: creation where
  \<comment> \<open>a creation that the system refuses for the length of a name\<close>
  "refused_creation s parents exist_ok w =
     (Some (OSError ENAMETOOLONG (str_path (Path s))), log (Mkdir s parents exist_ok) w)"

definition example_tree :: filesystem where
  \<comment> \<open>the tree of \<open>example_world\<close> once \<open>/data/example\<close> is made\<close>
  "example_tree =
     [[] \<mapsto> Directory True, [''data''] \<mapsto> Directory True,
      [''data'', ''example''] \<mapsto> Directory True]"

definition readonly_world :: world where
  \<comment> \<open>as \<open>example_world\<close>, but the root directory is not writable\<close>
  "readonly_world = example_world\<lparr>tree := [[] \<mapsto> Directory False]\<rparr>"

definition absolute_args :: "string list" where
  \<comment> \<open>an invocation with an absolute \<open>--output\<close>\<close>
  "absolute_args = [''--model'', ''org/example-model'', ''--output'', ''/srv/example'']"

definition other_absolute_args :: "string list" where
  \<comment> \<open>the same for another model, with an abbreviated option\<close>
  "other_absolute_args = [''--output=/srv/example'', ''--mod'', ''org/other-model'']"

definition prepared_world :: world where
  \<comment> \<open>as \<open>example_world\<close>, with \<open>/data/example\<close> already there\<close>
  "prepared_world = example_world\<lparr>tree := example_tree\<rparr>"

section \<open>Properties of the library\<close>

subsection \<open>The file tree\<close>

text \<open>
  Resolving a path goes through directories only, and it is not disturbed by what is
  added to the tree. \<open>Path.mkdir\<close> raises nothing but \<open>OSError\<close>; where it returns, the
  path is a directory and the tree has only grown.
\<close>

lemma walk_append:
  "walk t loc (xs @ ys) = (case walk t loc xs of Inl e \<Rightarrow> Inl e | Inr l \<Rightarrow> walk t l ys)"
  by (induction xs arbitrary: loc) (auto split: option.splits node.splits)

lemma walk_step_directory:
  "walk t loc (c # cs) = Inr l \<Longrightarrow> \<exists>wr. t loc = Some (Directory wr)"
  by (auto split: option.splits node.splits)

lemma walk_mono:
  "t \<subseteq>\<^sub>m t' \<Longrightarrow> walk t loc xs = Inr l \<Longrightarrow> walk t' loc xs = Inr l"
proof (induction xs arbitrary: loc)
  case Nil
  then show ?case by simp
next
  case (Cons c cs)
  from Cons.prems(2) obtain wr where d: "t loc = Some (Directory wr)"
    by (blast dest: walk_step_directory)
  with Cons.prems(1) have d': "t' loc = Some (Directory wr)"
    by (auto simp: map_le_def dom_def)
  from Cons.prems(2) d
  have "walk t (if c = ''..'' then butlast loc else if c = ''.'' then loc else loc @ [c]) cs = Inr l"
    by simp
  from Cons.IH [OF Cons.prems(1) this] d' show ?case
    by simp
qed

lemma is_dir_mono: "t \<subseteq>\<^sub>m t' \<Longrightarrow> is_dir t wd p \<Longrightarrow> is_dir t' wd p"
proof -
  assume le: "t \<subseteq>\<^sub>m t'" and d: "is_dir t wd p"
  from d obtain loc wr where w: "walk t (start_of wd p) (parts p) = Inr loc"
    and n: "t loc = Some (Directory wr)"
    by (auto simp: is_dir_def split: sum.splits option.splits node.splits)
  from le n have "t' loc = Some (Directory wr)"
    by (auto simp: map_le_def dom_def)
  with walk_mono [OF le w] show "is_dir t' wd p"
    by (simp add: is_dir_def)
qed

lemma is_dir_prefix:
  assumes "is_dir t wd p"
  shows "is_dir t wd (PurePath (root p) (take n (parts p)))"
proof -
  from assms obtain loc wr where w: "walk t (start_of wd p) (parts p) = Inr loc"
    and d: "t loc = Some (Directory wr)"
    by (auto simp: is_dir_def split: sum.splits option.splits node.splits)
  have "walk t (start_of wd p) (take n (parts p) @ drop n (parts p)) = Inr loc"
    using w by simp
  then obtain l1 where l1: "walk t (start_of wd p) (take n (parts p)) = Inr l1"
    and rest: "walk t l1 (drop n (parts p)) = Inr loc"
    unfolding walk_append by (auto split: sum.splits)
  have "\<exists>wr. t l1 = Some (Directory wr)"
  proof (cases "drop n (parts p)")
    case Nil
    with rest d show ?thesis by simp
  next
    case (Cons c cs)
    with rest have "walk t l1 (c # cs) = Inr loc" by simp
    then show ?thesis by (rule walk_step_directory)
  qed
  with l1 show ?thesis
    by (auto simp: is_dir_def start_of_def)
qed

lemma is_dir_parents_of:
  "is_dir t wd p \<Longrightarrow> list_all (is_dir t wd) (parents_of p)"
  by (simp add: parents_of_def list_all_iff is_dir_prefix)

lemma os_mkdir_existing:
  assumes "is_dir t wd p"
  shows "os_mkdir t wd p = Inl EEXIST"
proof (cases "parts p = []")
  case True
  then show ?thesis by (simp add: os_mkdir_def)
next
  case False
  from assms obtain loc wr where w: "walk t (start_of wd p) (parts p) = Inr loc"
    and d: "t loc = Some (Directory wr)"
    by (auto simp: is_dir_def split: sum.splits option.splits node.splits)
  from False have "parts p = butlast (parts p) @ [last (parts p)]" by simp
  with w have "walk t (start_of wd p) (butlast (parts p) @ [last (parts p)]) = Inr loc"
    by simp
  then obtain dir where dir: "walk t (start_of wd p) (butlast (parts p)) = Inr dir"
    and step: "walk t dir [last (parts p)] = Inr loc"
    unfolding walk_append by (auto split: sum.splits)
  from step obtain wr' where dd: "t dir = Some (Directory wr')"
    by (blast dest: walk_step_directory)
  from step dd d have "last (parts p) = ''..'' \<or> last (parts p) = ''.'' \<or>
      t (dir @ [last (parts p)]) \<noteq> None"
    by (auto split: if_splits)
  with False dir dd show ?thesis
    by (auto simp: os_mkdir_def Let_def)
qed

lemma Path_mkdir_existing:
  "is_dir t wd p \<Longrightarrow> Path_mkdir t wd p parents True = (None, t)"
  by (subst Path_mkdir.simps) (simp add: os_mkdir_existing)

lemma os_mkdir_creates:
  assumes "os_mkdir t wd p = Inr t'"
  shows "is_dir t' wd p \<and> t \<subseteq>\<^sub>m t' \<and> \<not> path_exists t wd p"
proof -
  from assms have ne: "parts p \<noteq> []"
    by (auto simp: os_mkdir_def split: if_splits)
  let ?c = "last (parts p)"
  from assms ne obtain dir where dir: "walk t (start_of wd p) (butlast (parts p)) = Inr dir"
    and dd: "t dir = Some (Directory True)"
    and c: "?c \<noteq> ''..''" "?c \<noteq> ''.''"
    and fresh: "t (dir @ [?c]) = None"
    and t': "t' = t(dir @ [?c] \<mapsto> Directory True)"
    by (auto simp: os_mkdir_def Let_def split: sum.splits option.splits node.splits if_splits)
  from fresh t' have le: "t \<subseteq>\<^sub>m t'"
    by (auto simp: map_le_def)
  from dd fresh have "dir \<noteq> dir @ [?c]" by simp
  with dd t' have dd': "t' dir = Some (Directory True)" by simp
  have p: "parts p = butlast (parts p) @ [?c]" using ne by simp
  have "walk t' (start_of wd p) (butlast (parts p) @ [?c]) = Inr (dir @ [?c])"
    unfolding walk_append using walk_mono [OF le dir] dd' c by simp
  with p have w': "walk t' (start_of wd p) (parts p) = Inr (dir @ [?c])" by simp
  have "walk t (start_of wd p) (butlast (parts p) @ [?c]) = Inr (dir @ [?c])"
    unfolding walk_append using dir dd c by simp
  with p have w: "walk t (start_of wd p) (parts p) = Inr (dir @ [?c])" by simp
  from w' t' w fresh le show ?thesis
    by (simp add: is_dir_def path_exists_def)
qed

lemma Path_mkdir_creates:
  "Path_mkdir t wd p parents exist_ok = (None, t') \<Longrightarrow> is_dir t' wd p \<and> t \<subseteq>\<^sub>m t'"
proof (induction t wd p parents exist_ok arbitrary: t' rule: Path_mkdir.induct)
  case (1 t wd p parents exist_ok)
  show ?case
  proof (cases "os_mkdir t wd p")
    case (Inr t1)
    with "1.prems" have "t' = t1"
      by (subst (asm) Path_mkdir.simps) simp
    with Inr show ?thesis
      by (simp add: os_mkdir_creates)
  next
    case (Inl e)
    show ?thesis
    proof (cases "e = ENOENT")
      case True
      with Inl "1.prems" have go: "parents \<and> parent p \<noteq> p"
        by (subst (asm) Path_mkdir.simps) (auto split: if_splits)
      with True Inl "1.prems" obtain t1 where
        up: "Path_mkdir t wd (parent p) True True = (None, t1)"
        and leaf: "Path_mkdir t1 wd p False exist_ok = (None, t')"
        by (subst (asm) Path_mkdir.simps) (auto split: prod.splits option.splits)
      from "1.IH"(1) [OF _ _ _ up] Inl True go have "t \<subseteq>\<^sub>m t1" by simp
      moreover from "1.IH"(2) [OF _ _ _ up [symmetric] refl leaf] Inl True go
      have "is_dir t' wd p \<and> t1 \<subseteq>\<^sub>m t'" by simp
      ultimately show ?thesis
        by (auto intro: map_le_trans)
    next
      case False
      with Inl "1.prems" have "t' = t \<and> is_dir t wd p"
        by (subst (asm) Path_mkdir.simps) (auto split: errno.splits if_splits)
      then show ?thesis by simp
    qed
  qed
qed

lemma Path_mkdir_raises:
  "Path_mkdir t wd p parents exist_ok = (Some e, t') \<Longrightarrow> \<exists>err name. e = OSError err name"
proof (induction t wd p parents exist_ok arbitrary: t' rule: Path_mkdir.induct)
  case (1 t wd p parents exist_ok)
  from "1.prems" show ?case
    apply (subst (asm) Path_mkdir.simps)
    apply (auto split: sum.splits errno.splits if_splits prod.splits option.splits dest: "1.IH")
    done
qed

subsection \<open>The argument parser\<close>

text \<open>
  A string is read as an option of the parser only if it gives that option; the
  actions that a parse takes are those of the options it has read.
\<close>

lemma fst_partition: "fst (str_partition c s) = takeWhile (\<lambda>x. x \<noteq> c) s"
proof (cases "dropWhile (\<lambda>x. x \<noteq> c) s = []")
  case True
  then have "takeWhile (\<lambda>x. x \<noteq> c) s = s"
    by simp
  moreover from True have "str_partition c s = (s, [], [])"
    by (simp add: str_partition_def)
  ultimately show ?thesis
    by (simp only: fst_conv)
next
  case False
  then show ?thesis
    by (auto simp: str_partition_def)
qed

lemma startswith_takeWhile:
  "takeWhile P s = p \<Longrightarrow> startswith s p"
proof -
  assume "takeWhile P s = p"
  then have "s = p @ dropWhile P s" by (metis takeWhile_dropWhile_id)
  then have "take (length p) s = p" by (metis append_eq_conv_conj)
  then show ?thesis by (simp add: startswith_def)
qed

lemma table_cases:
  "(os, a) \<in> set option_string_actions \<longleftrightarrow>
     os = ''-h'' \<and> a = Help_action \<or> os = ''--help'' \<and> a = Help_action \<or>
     os = ''--model'' \<and> a = Store_model \<or> os = ''--output'' \<and> a = Store_output"
  by (auto simp: option_string_actions_def)

lemma map_of_table:
  "map_of option_string_actions os = Some a \<Longrightarrow> (os, a) \<in> set option_string_actions"
  by (rule map_of_SomeD)

lemma gives_exact:
  assumes "(os, a) \<in> set option_string_actions" and "takeWhile (\<lambda>c. c \<noteq> CHR ''='') s = os"
  shows "gives a s"
proof -
  from assms(2) have "startswith s os" by (rule startswith_takeWhile)
  with assms show ?thesis
    unfolding table_cases
    by (auto simp: asks_help_def names_option_def startswith_def)
qed

lemma startswith_take2:
  assumes "startswith os s" and "2 \<le> length s"
  shows "take 2 s = take 2 os"
proof -
  from assms(1) have "take 2 s = take 2 (take (length s) os)"
    by (simp add: startswith_def)
  also from assms(2) have "\<dots> = take 2 os"
    by (simp add: min_def)
  finally show ?thesis .
qed

lemma takeWhile_dashes:
  assumes "startswith s ''--''"
  shows "startswith (takeWhile (\<lambda>c. c \<noteq> CHR ''='') s) ''--''"
proof -
  from assms obtain r where "s = ''--'' @ r"
    by (metis startswith_def append_take_drop_id)
  then show ?thesis
    by (simp add: startswith_def)
qed

lemma long_tuples:
  assumes "startswith s ''--''" and "get_option_tuples s = Inr ts"
  shows "ts = map (\<lambda>(os, a). (Some a, os,
                 if fst (snd (str_partition CHR ''='' s)) = [] then None
                 else Some (fst (snd (str_partition CHR ''='' s))),
                 if fst (snd (str_partition CHR ''='' s)) = [] then None
                 else Some (snd (snd (str_partition CHR ''='' s)))))
              (filter (\<lambda>(os, a). startswith os (takeWhile (\<lambda>c. c \<noteq> CHR ''='') s))
                 option_string_actions)"
  using assms fst_partition [of "CHR ''=''" s]
  by (cases "str_partition CHR ''='' s") (auto simp: get_option_tuples_def)

lemma long_tuple_gives:
  assumes "startswith s ''--''" and "get_option_tuples s = Inr ts"
    and "length ts = 1" and "(Some a, os, sep, ex) \<in> set ts"
  shows "gives a s"
proof -
  let ?given = "takeWhile (\<lambda>c. c \<noteq> CHR ''='') s"
  note ts = long_tuples [OF assms(1,2)]
  from assms(4) have mem: "(os, a) \<in> set option_string_actions" and sw: "startswith os ?given"
    unfolding ts by auto
  have two: "startswith ?given ''--''"
    using assms(1) by (rule takeWhile_dashes)
  have three: "3 \<le> length ?given"
  proof (rule ccontr)
    assume "\<not> 3 \<le> length ?given"
    with two have "?given = ''--''"
      by (cases ?given; cases "tl ?given"; cases "tl (tl ?given)") (auto simp: startswith_def)
    with assms(3) show False
      unfolding ts by (simp add: option_string_actions_def startswith_def)
  qed
  from mem consider "os = ''-h''" | "os = ''--help'' \<and> a = Help_action"
    | "os = ''--model'' \<and> a = Store_model" | "os = ''--output'' \<and> a = Store_output"
    unfolding table_cases by blast
  then show ?thesis
  proof cases
    case 1
    with sw three show ?thesis
      by (auto simp: startswith_def dest: arg_cong [where f = length])
  next
    case 2
    with sw three show ?thesis by (simp add: asks_help_def names_option_def)
  next
    case 3
    with sw three show ?thesis by (simp add: names_option_def)
  next
    case 4
    with sw three show ?thesis by (simp add: names_option_def)
  qed
qed

lemma short_tuple_gives:
  assumes "\<not> startswith s ''--''" and "get_option_tuples s = Inr ts"
    and "(Some a, os, sep, ex) \<in> set ts"
  shows "gives a s"
proof -
  from assms(1,2) have len: "2 \<le> length s"
    and ts: "ts = concat (map (\<lambda>(os, a).
               if os = take 2 s then [(Some a, os, Some [], Some (drop 2 s))]
               else if startswith os s then [(Some a, os, None, None)]
               else []) option_string_actions)"
    by (auto simp: get_option_tuples_def split: if_splits)
  from assms(3) obtain os' a' where mem: "(os', a') \<in> set option_string_actions"
    and hit: "(Some a, os, sep, ex) \<in> set (if os' = take 2 s then [(Some a', os', Some [], Some (drop 2 s))]
               else if startswith os' s then [(Some a', os', None, None)] else [])"
    unfolding ts by auto
  from hit have eq: "a' = a" "os' = os" and how: "os = take 2 s \<or> startswith os s"
    by (auto split: if_splits)
  from how len have t2: "take 2 s = take 2 os"
    by (auto dest: startswith_take2)
  from assms(1) have "take 2 s \<noteq> ''--''"
    by (simp add: startswith_def numeral_2_eq_2)
  with t2 mem eq have "os = ''-h'' \<and> a = Help_action"
    unfolding table_cases by auto
  with t2 show ?thesis
    by (simp add: asks_help_def startswith_def numeral_2_eq_2)
qed

lemma parse_optional_gives:
  assumes "parse_optional s = Inr (Some (Some a, os, sep, ex))"
  shows "gives a s"
proof (cases "map_of option_string_actions s")
  case (Some b)
  with assms have "b = a"
    by (auto simp: parse_optional_def split: if_splits)
  with Some have "(s, a) \<in> set option_string_actions"
    by (auto dest: map_of_table)
  then show ?thesis
    unfolding table_cases
    by (auto simp: asks_help_def names_option_def startswith_def)
next
  case None
  note exact = None
  obtain h sp t where part: "str_partition CHR ''='' s = (h, sp, t)"
    by (cases "str_partition CHR ''='' s")
  with fst_partition [of "CHR ''=''" s] have h: "takeWhile (\<lambda>c. c \<noteq> CHR ''='') s = h"
    by simp
  show ?thesis
  proof (cases "if sp \<noteq> [] then map_of option_string_actions h else None")
    case (Some b)
    with assms exact part have "b = a"
      by (auto simp: parse_optional_def split: if_splits)
    with Some have "(h, a) \<in> set option_string_actions"
      by (auto dest: map_of_table split: if_splits)
    then show ?thesis using h by (rule gives_exact)
  next
    case None
    with assms exact part obtain ts where ts: "get_option_tuples s = Inr ts"
      and one: "length ts = 1" and hd: "hd ts = (Some a, os, sep, ex)"
      by (auto simp: parse_optional_def split: if_splits sum.splits)
    from one hd have mem: "(Some a, os, sep, ex) \<in> set ts"
      by (cases ts) auto
    show ?thesis
    proof (cases "startswith s ''--''")
      case True
      from True ts one mem show ?thesis by (rule long_tuple_gives)
    next
      case False
      from False ts mem show ?thesis by (rule short_tuple_gives)
    qed
  qed
qed

lemma option_actions_args: "option_actions (map (\<lambda>s. (s, Arg)) ss) = []"
  by (induction ss) simp_all

lemma option_actions_iff:
  "a \<in> set (option_actions tagged) \<longleftrightarrow>
   (\<exists>s os sep ex. (s, Opt (Some a, os, sep, ex)) \<in> set tagged)"
  by (induction tagged rule: option_actions.induct) auto

lemma option_actions_drop: "set (option_actions (drop n tagged)) \<subseteq> set (option_actions tagged)"
proof
  fix a
  assume "a \<in> set (option_actions (drop n tagged))"
  then obtain s os sep ex where "(s, Opt (Some a, os, sep, ex)) \<in> set (drop n tagged)"
    unfolding option_actions_iff by blast
  then have "(s, Opt (Some a, os, sep, ex)) \<in> set tagged"
    by (rule in_set_dropD)
  then show "a \<in> set (option_actions tagged)"
    unfolding option_actions_iff by blast
qed

lemma classify_gives:
  "classify args = Inr tagged \<Longrightarrow> a \<in> set (option_actions tagged) \<Longrightarrow> \<exists>s\<in>set args. gives a s"
proof (induction args arbitrary: tagged)
  case Nil
  then show ?case by simp
next
  case (Cons s ss)
  show ?case
  proof (cases "s = ''--''")
    case True
    with Cons.prems show ?thesis
      by (auto simp: option_actions_args)
  next
    case False
    with Cons.prems(1) obtain t rest where t: "parse_optional s = Inr t"
      and rest: "classify ss = Inr rest"
      and tagged: "tagged = (s, case t of None \<Rightarrow> Arg | Some x \<Rightarrow> Opt x) # rest"
      by (auto split: sum.splits)
    show ?thesis
    proof (cases "a \<in> set (option_actions rest)")
      case True
      from Cons.IH [OF rest True] show ?thesis by auto
    next
      case False
      with Cons.prems(2) tagged obtain os sep ex where "t = Some (Some a, os, sep, ex)"
        by (cases t; cases "the t"; cases "fst (the t)") (auto split: if_splits)
      with t have "gives a s"
        by (auto dest: parse_optional_gives)
      then show ?thesis by auto
    qed
  qed
qed

lemma match_argument_zero: "match_argument a [Arg] = Some 0 \<Longrightarrow> a = Help_action"
  by (cases a) simp_all

lemma two_char_option: "map_of option_string_actions [x, y] = Some a \<Longrightarrow> a = Help_action"
  by (auto simp: option_string_actions_def split: if_splits)

lemma consume_optional_result:
  "consume_optional a os sep ex following ts = Inr (ts', left_over, following') \<Longrightarrow>
   fst ` set ts' \<subseteq> fst ` set ts \<union> {a} \<and> (\<exists>n. following' = drop n following)"
proof (induction "case ex of None \<Rightarrow> 0 | Some e \<Rightarrow> Suc (length e)"
         arbitrary: a os sep ex ts rule: less_induct)
  case less
  show ?case
  proof (cases ex)
    case None
    with less.prems show ?thesis
      by (subst (asm) consume_optional.simps) (auto split: option.splits)
  next
    case (Some e)
    show ?thesis
    proof (cases "match_argument a [Arg] = Some 0 \<and> e \<noteq> []")
      case False
      with less.prems Some show ?thesis
        by (subst (asm) consume_optional.simps)
           (auto split: option.splits if_splits intro: exI [of _ 0])
    next
      case True
      then have a: "a = Help_action" by (auto dest: match_argument_zero)
      from True obtain c cs where e: "e = c # cs" by (cases e) auto
      let ?ts1 = "ts @ [(a, [])]"
      let ?os1 = "[hd os, c]"
      have IH: "fst ` set ts' \<subseteq> fst ` set ts \<union> {a} \<and> (\<exists>n. following' = drop n following)"
        if m: "bex = None \<or> bex = Some cs \<or> bex = Some (tl cs)"
          and b: "map_of option_string_actions ?os1 = Some b"
          and r: "consume_optional b ?os1 bsep bex following ?ts1 = Inr (ts', left_over, following')"
        for b bsep bex
      proof -
        from m Some e
        have "(case bex of None \<Rightarrow> 0 | Some e \<Rightarrow> Suc (length e))
              < (case ex of None \<Rightarrow> 0 | Some e \<Rightarrow> Suc (length e))"
          by auto
        from less.hyps [OF this r] two_char_option [OF b] a show ?thesis
          by auto
      qed
      have step: "consume_optional a os sep (Some (c # cs)) following ts =
        (if os ! 1 \<noteq> CHR ''-'' then
           if (sep \<noteq> None \<and> sep \<noteq> Some []) \<or> c = CHR ''-'' then
             Inl (Ignored_explicit_argument a (c # cs))
           else
             (case map_of option_string_actions ?os1 of
                Some b \<Rightarrow>
                  if cs = [] then consume_optional b ?os1 None None following ?ts1
                  else if hd cs = CHR ''='' then
                    consume_optional b ?os1 (Some ''='') (Some (tl cs)) following ?ts1
                  else consume_optional b ?os1 (Some []) (Some cs) following ?ts1
              | None \<Rightarrow> Inr (?ts1, [hd os # c # cs], following))
         else Inl (Ignored_explicit_argument a (c # cs)))"
        using True by (subst consume_optional.simps) (auto simp: Let_def split: option.splits)
      show ?thesis
      proof (cases "map_of option_string_actions ?os1")
        case None
        with less.prems Some e step show ?thesis
          by (auto split: if_splits intro: exI [of _ 0])
      next
        case (Some b)
        with less.prems \<open>ex = Some e\<close> e step
        have "consume_optional b ?os1 None None following ?ts1 = Inr (ts', left_over, following') \<or>
              consume_optional b ?os1 (Some ''='') (Some (tl cs)) following ?ts1 =
                Inr (ts', left_over, following') \<or>
              consume_optional b ?os1 (Some []) (Some cs) following ?ts1 =
                Inr (ts', left_over, following')"
          by (auto split: if_splits)
        with Some IH [of None b None] IH [of "Some (tl cs)" b "Some ''=''"]
          IH [of "Some cs" b "Some []"]
        show ?thesis
          by blast
      qed
    qed
  qed
qed

lemma take_actions_result:
  "(take_actions ts ns = Inl u \<longrightarrow> Help_action \<in> fst ` set ts) \<and>
   (take_actions ts ns = Inr ns' \<longrightarrow>
      (fst ns' = fst ns \<or> Store_model \<in> fst ` set ts) \<and>
      (snd ns' = snd ns \<or> Store_output \<in> fst ` set ts))"
  by (induction ts ns rule: take_actions.induct) auto

lemma consume_result:
  "(consume tagged ns extras = Namespace m out \<longrightarrow>
      (fst ns = None \<longrightarrow> Store_model \<in> set (option_actions tagged)) \<and>
      (snd ns = None \<longrightarrow> Store_output \<in> set (option_actions tagged))) \<and>
   (consume tagged ns extras = Parser_exit st msg \<longrightarrow>
      st = 2 \<or> st = 0 \<and> msg = Help_message \<and> Help_action \<in> set (option_actions tagged))"
proof (induction tagged ns extras rule: consume.induct)
  case (1 ns extras)
  show ?case
    by (cases "fst ns"; cases "snd ns") (auto simp: Let_def)
next
  case (2 s following ns extras)
  then show ?case by simp
next
  case (3 s following ns extras)
  then show ?case by simp
next
  case (4 s option_string sep explicit_arg following ns extras)
  then show ?case by simp
next
  case (5 s action option_string sep explicit_arg following ns extras)
  show ?case
  proof (cases "consume_optional action option_string sep explicit_arg following []")
    case (Inl e)
    then show ?thesis by simp
  next
    case (Inr r)
    then obtain ts left_over following' where
      r: "consume_optional action option_string sep explicit_arg following [] =
            Inr (ts, left_over, following')"
      by (cases r) auto
    from consume_optional_result [OF r]
    have acts: "fst ` set ts \<subseteq> {action}"
      and sub: "set (option_actions following') \<subseteq> set (option_actions following)"
      using option_actions_drop by auto
    show ?thesis
    proof (cases "take_actions ts ns")
      case (Inl u)
      with take_actions_result [of ts ns u] acts have "action = Help_action" by auto
      with r Inl show ?thesis by simp
    next
      case (Inr ns')
      from take_actions_result [of ts ns _ ns'] Inr acts
      have m: "fst ns' = fst ns \<or> action = Store_model"
        and out: "snd ns' = snd ns \<or> action = Store_output"
        by auto
      from "5.IH" [OF r refl refl Inr] r Inr sub m out show ?thesis
        by auto
    qed
  qed
qed

lemma parse_args_Namespace:
  assumes "parse_args args = Namespace m out"
  shows "(\<exists>a\<in>set args. names_option ''--model'' a) \<and>
         (\<exists>a\<in>set args. names_option ''--output'' a)"
proof -
  from assms obtain tagged where c: "classify args = Inr tagged"
    and r: "consume tagged (None, None) [] = Namespace m out"
    by (auto simp: parse_args_def split: sum.splits)
  from consume_result [of tagged "(None, None)" "[]" m out] r
  have "Store_model \<in> set (option_actions tagged)" "Store_output \<in> set (option_actions tagged)"
    by auto
  from this [THEN classify_gives [OF c]] show ?thesis by simp
qed

lemma parse_args_Parser_exit:
  assumes "parse_args args = Parser_exit st msg"
  shows "st = 2 \<or> st = 0 \<and> msg = Help_message \<and> (\<exists>a\<in>set args. asks_help a)"
proof (cases "classify args")
  case (Inl e)
  with assms show ?thesis by (auto simp: parse_args_def)
next
  case (Inr tagged)
  with assms have "consume tagged (None, None) [] = Parser_exit st msg"
    by (simp add: parse_args_def)
  with consume_result [of tagged "(None, None)" "[]" _ _ st msg]
  have "st = 2 \<or> st = 0 \<and> msg = Help_message \<and> Help_action \<in> set (option_actions tagged)"
    by auto
  with classify_gives [OF Inr, of Help_action] show ?thesis by auto
qed

section \<open>Properties of the script\<close>

subsection \<open>Runs\<close>

text \<open>
  What \<open>download_model\<close> does in each of its three outcomes: the directory cannot be
  made, the download returns, the download raises.
\<close>

lemma downloads_append: "downloads (xs @ ys) = downloads xs @ downloads ys"
  by (induction xs rule: downloads.induct) simp_all

lemma mkdirs_append: "mkdirs (xs @ ys) = mkdirs xs @ mkdirs ys"
  by (induction xs rule: mkdirs.induct) simp_all

lemma resolved_destination_eq: "resolved_destination (environ w) out = destination w out"
  by (auto simp: resolved_destination_def destination_def base_dir_def environ_get_def
           split: option.splits)

lemma main_parsed:
  "parse_args args = Namespace m out \<Longrightarrow>
   main hub args w = download_model hub m (destination w out) w"
  by (simp add: main_def destination_def Let_def)

lemmas run_defs =
  download_model_def try_except_Exception_def seq_def py_print_def mkdir_def
  snapshot_download_def sys_exit_def log_def download_request_def

lemma download_model_mkdir_raises:
  assumes "Path_mkdir (tree w) (cwd w) (Path d) True True = (Some e, t1)"
  shows "download_model hub m d w =
           (Some (SystemExit 1),
            w\<lparr>trace := trace w @
               [Stdout (''Downloading '' @ m @ '' to '' @ d @ ''...''),
                Mkdir d True True,
                Stdout (''Error downloading '' @ m @ '': '' @ str_exn e)],
              tree := t1\<rparr>)"
proof -
  from Path_mkdir_raises [OF assms] have "is_Exception e" by auto
  with assms show ?thesis
    by (simp add: run_defs Let_def)
qed

lemma download_model_hub_returns:
  assumes "Path_mkdir (tree w) (cwd w) (Path d) True True = (None, t1)"
    and "hub (download_request m d) t1 = (None, t2)"
  shows "download_model hub m d w =
           (None,
            w\<lparr>trace := trace w @
               [Stdout (''Downloading '' @ m @ '' to '' @ d @ ''...''),
                Mkdir d True True,
                Snapshot_download (download_request m d),
                Stdout (''Successfully downloaded '' @ m)],
              tree := t2\<rparr>)"
  using assms by (simp add: run_defs Let_def)

lemma download_model_hub_raises:
  assumes "Path_mkdir (tree w) (cwd w) (Path d) True True = (None, t1)"
    and "hub (download_request m d) t1 = (Some e, t2)"
  shows "download_model hub m d w =
           (if is_Exception e then
              (Some (SystemExit 1),
               w\<lparr>trace := trace w @
                  [Stdout (''Downloading '' @ m @ '' to '' @ d @ ''...''),
                   Mkdir d True True,
                   Snapshot_download (download_request m d),
                   Stdout (''Error downloading '' @ m @ '': '' @ str_exn e)],
                 tree := t2\<rparr>)
            else
              (Some e,
               w\<lparr>trace := trace w @
                  [Stdout (''Downloading '' @ m @ '' to '' @ d @ ''...''),
                   Mkdir d True True,
                   Snapshot_download (download_request m d)],
                 tree := t2\<rparr>))"
  using assms by (simp add: run_defs Let_def)

lemma download_model_trace:
  "\<exists>rest. trace (snd (download_model hub m d w)) =
      trace w @ [Stdout (''Downloading '' @ m @ '' to '' @ d @ ''...''), Mkdir d True True] @ rest \<and>
      mkdirs rest = [] \<and>
      (downloads rest = [] \<or> downloads rest = [download_request m d])"
proof -
  obtain r1 t1 where mk: "Path_mkdir (tree w) (cwd w) (Path d) True True = (r1, t1)"
    by (cases "Path_mkdir (tree w) (cwd w) (Path d) True True")
  show ?thesis
  proof (cases r1)
    case (Some e)
    with mk show ?thesis
      by (simp add: download_model_mkdir_raises)
  next
    case None
    obtain r t2 where h: "hub (download_request m d) t1 = (r, t2)"
      by (cases "hub (download_request m d) t1")
    show ?thesis
    proof (cases r)
      case None
      with \<open>r1 = None\<close> mk h show ?thesis
        by (simp add: download_model_hub_returns)
    next
      case (Some e)
      with \<open>r1 = None\<close> mk h show ?thesis
        by (simp add: download_model_hub_raises)
    qed
  qed
qed

lemma download_model_after_mkdir:
  assumes "Path_mkdir (tree w) (cwd w) (Path d) True True = (None, t1)"
  shows "tree (snd (download_model hub m d w)) = snd (hub (download_request m d) t1) \<and>
         (\<exists>rest. trace (snd (download_model hub m d w)) =
            trace w @
            [Stdout (''Downloading '' @ m @ '' to '' @ d @ ''...''), Mkdir d True True,
             Snapshot_download (download_request m d)] @ rest \<and>
            downloads rest = [])"
proof -
  obtain r t2 where h: "hub (download_request m d) t1 = (r, t2)"
    by (cases "hub (download_request m d) t1")
  show ?thesis
  proof (cases r)
    case None
    with assms h show ?thesis
      by (simp add: download_model_hub_returns)
  next
    case (Some e)
    with assms h show ?thesis
      by (simp add: download_model_hub_raises)
  qed
qed

lemma script_parsed:
  "parse_args args = Namespace m out \<Longrightarrow>
   script hub args w =
     (case download_model hub m (destination w out) w of
        (None, w') \<Rightarrow> (Exited 0, w')
      | (Some (SystemExit code), w') \<Rightarrow> (Exited code, w')
      | (Some e, w') \<Rightarrow> (Killed e, w'))"
  by (simp add: script_def main_parsed)

lemma snd_script_parsed:
  "parse_args args = Namespace m out \<Longrightarrow>
   snd (script hub args w) = snd (download_model hub m (destination w out) w)"
  by (auto simp: script_parsed split: prod.splits option.splits exn.splits)

lemma script_parser_exit:
  "parse_args args = Parser_exit status out \<Longrightarrow>
   script hub args w = (Exited status, w\<lparr>trace := trace w @ [Argparse out]\<rparr>)"
  by (simp add: script_def main_def sys_exit_def log_def)

lemma download_model_by_mkdir: "download_model_by mkdir hub m d = download_model hub m d"
  by (simp add: download_model_by_def download_model_def)

lemma main_by_mkdir: "main_by mkdir hub args w = main hub args w"
  by (cases "parse_args args") (simp_all add: main_by_def main_def download_model_by_mkdir)

lemma script_by_mkdir: "script_by mkdir hub args w = script hub args w"
  by (simp add: script_by_def script_def main_by_mkdir)

lemma script_by_parsed:
  "parse_args args = Namespace m out \<Longrightarrow>
   script_by creation hub args w =
     (case download_model_by creation hub m (destination w out) w of
        (None, w') \<Rightarrow> (Exited 0, w')
      | (Some (SystemExit code), w') \<Rightarrow> (Exited code, w')
      | (Some e, w') \<Rightarrow> (Killed e, w'))"
  by (simp add: script_by_def main_by_def destination_def Let_def)

lemma download_model_by_creation_raises:
  assumes "creation d True True (log (Stdout (''Downloading '' @ m @ '' to '' @ d @ ''...'')) w) =
             (Some e, w1)"
    and "is_Exception e"
  shows "download_model_by creation hub m d w =
           (Some (SystemExit 1),
            log (Stdout (''Error downloading '' @ m @ '': '' @ str_exn e)) w1)"
  using assms
  by (simp add: download_model_by_def try_except_Exception_def seq_def py_print_def sys_exit_def)

subsection \<open>The example runs\<close>

lemma example_parse: "parse_args example_args = Namespace ''org/example-model'' ''example''"
  unfolding example_args_def by code_simp

lemma example_destination: "destination example_world ''example'' = ''/data/example''"
  by (simp add: destination_def example_world_def environ_get_def path_join_def
        startswith_def endswith_def)

lemma Path_example: "Path ''/data/example'' = PurePath ''/'' [''data'', ''example'']"
  by (simp add: Path_def splitroot_def startswith_def)

lemma example_mkdir:
  "Path_mkdir (tree example_world) (cwd example_world) (Path ''/data/example'') True True =
     (None, example_tree)"
  by (simp add: Path_example example_world_def example_tree_def Path_mkdir.simps os_mkdir_def
        start_of_def parent_def is_dir_def)

lemma example_trace: "trace example_world = []"
  by (simp add: example_world_def)

lemma example_mkdir_destination:
  "Path_mkdir (tree example_world) (cwd example_world)
     (Path (destination example_world ''example'')) True True = (None, example_tree)"
  by (simp add: example_destination example_mkdir)

lemma readonly_destination: "destination readonly_world ''example'' = ''/data/example''"
  by (simp add: destination_def readonly_world_def example_world_def environ_get_def
        path_join_def startswith_def endswith_def)

lemma readonly_mkdir:
  "Path_mkdir (tree readonly_world) (cwd readonly_world) (Path ''/data/example'') True True =
     (Some (OSError EACCES ''/data''), tree readonly_world)"
  by (simp add: Path_example readonly_world_def example_world_def Path_mkdir.simps os_mkdir_def
        start_of_def parent_def is_dir_def str_path_def)

lemma absolute_parse: "parse_args absolute_args = Namespace ''org/example-model'' ''/srv/example''"
  unfolding absolute_args_def by code_simp

lemma other_absolute_parse:
  "parse_args other_absolute_args = Namespace ''org/other-model'' ''/srv/example''"
  unfolding other_absolute_args_def by code_simp

lemma prepared_destination: "destination prepared_world ''example'' = ''/data/example''"
  by (simp add: destination_def prepared_world_def example_world_def environ_get_def
        path_join_def startswith_def endswith_def)

lemma prepared_is_dir:
  "is_dir (tree prepared_world) (cwd prepared_world) (Path ''/data/example'')"
  by (simp add: Path_example prepared_world_def example_world_def example_tree_def is_dir_def
        start_of_def)

lemma repr_data: "repr_str ''/data'' = [CHR 0x27] @ ''/data'' @ [CHR 0x27]"
  by (simp add: repr_str_def repr_char_def printable_def Let_def)

lemma repr_data_example:
  "repr_str ''/data/example'' = [CHR 0x27] @ ''/data/example'' @ [CHR 0x27]"
  by (simp add: repr_str_def repr_char_def printable_def Let_def)

lemma readonly_trace: "trace readonly_world = []"
  by (simp add: readonly_world_def example_world_def)

lemma example_checks:
  "hub_checks (download_request ''org/example-model'' ''/data/example'') example_tree =
     (None, example_tree([''data'', ''example'', ''config.json''] \<mapsto> Regular_file))"
  by (simp add: hub_checks_def download_request_def Path_example)

subsection \<open>The destination\<close>

text \<open>
  Claim C1. When the arguments give \<open>--model\<close> and \<open>--output\<close>, \<open>main\<close> calls
  \<open>download_model\<close> with the path \<open>join(base_dir, output)\<close>, where \<open>base_dir\<close> is the
  value of \<open>MODELS_DIR\<close> when it is set and \<open>/models\<close> when it is unset. The run
  announces that path, asks for that directory, and every download it requests has
  that path as its local directory.
\<close>

theorem destination_is_join:
  assumes "parse_args args = Namespace m out"
  shows "main hub args w = download_model hub m (resolved_destination (environ w) out) w \<and>
         (\<exists>rest. trace (snd (script hub args w)) =
            trace w @
            [Stdout (''Downloading '' @ m @ '' to '' @ resolved_destination (environ w) out @ ''...''),
             Mkdir (resolved_destination (environ w) out) True True] @ rest \<and>
            mkdirs rest = [] \<and>
            list_all (\<lambda>c. local_dir c = resolved_destination (environ w) out) (downloads rest))"
proof -
  let ?d = "destination w out"
  obtain rest where r: "trace (snd (download_model hub m ?d w)) =
      trace w @ [Stdout (''Downloading '' @ m @ '' to '' @ ?d @ ''...''), Mkdir ?d True True] @ rest"
    and "mkdirs rest = []"
    and "downloads rest = [] \<or> downloads rest = [download_request m ?d]"
    using download_model_trace [of hub m ?d w] by blast
  then have "list_all (\<lambda>c. local_dir c = ?d) (downloads rest)"
    by (auto simp: download_request_def)
  with r \<open>mkdirs rest = []\<close> assms show ?thesis
    by (simp add: main_parsed snd_script_parsed resolved_destination_eq)
qed

theorem destination_is_join_witness:
  "parse_args example_args = Namespace ''org/example-model'' ''example'' \<and>
   resolved_destination (environ example_world) ''example'' = ''/data/example'' \<and>
   resolved_destination Map.empty ''example'' = ''/models/example'' \<and>
   main hub_ok example_args example_world =
     download_model hub_ok ''org/example-model'' ''/data/example'' example_world"
proof -
  have "resolved_destination Map.empty ''example'' = ''/models/example''"
    by (simp add: resolved_destination_def base_dir_def path_join_def startswith_def endswith_def)
  with destination_is_join [where hub = hub_ok and w = example_world, OF example_parse]
  show ?thesis
    by (simp add: example_parse resolved_destination_eq example_destination)
qed

subsection \<open>Errors and success of the download\<close>

text \<open>
  Claim C2. When the call of \<open>snapshot_download\<close> raises an error (an instance of
  \<open>Exception\<close>), the process prints \<open>Error downloading {model}: {cause}\<close>, with the
  model identifier and the \<open>str\<close> of the error, as its last line and exits with
  status 1.
\<close>

theorem hub_error_reported:
  assumes "parse_args args = Namespace m out"
    and "Path_mkdir (tree w) (cwd w) (Path (destination w out)) True True = (None, t1)"
    and "hub (download_request m (destination w out)) t1 = (Some e, t2)"
    and "is_Exception e"
  shows "fst (script hub args w) = Exited 1 \<and>
         trace (snd (script hub args w)) =
           trace w @
           [Stdout (''Downloading '' @ m @ '' to '' @ destination w out @ ''...''),
            Mkdir (destination w out) True True,
            Snapshot_download (download_request m (destination w out)),
            Stdout (''Error downloading '' @ m @ '': '' @ str_exn e)]"
  using assms by (simp add: script_parsed download_model_hub_raises)

theorem hub_error_reported_witness:
  "parse_args example_args = Namespace ''org/example-model'' ''example'' \<and>
   fst (script hub_fails example_args example_world) = Exited 1 \<and>
   trace (snd (script hub_fails example_args example_world)) =
     [Stdout ''Downloading org/example-model to /data/example...'',
      Mkdir ''/data/example'' True True,
      Snapshot_download (download_request ''org/example-model'' ''/data/example''),
      Stdout ''Error downloading org/example-model: 404 Client Error'']"
proof -
  have mk: "Path_mkdir (tree example_world) (cwd example_world)
              (Path (destination example_world ''example'')) True True = (None, example_tree)"
    by (simp add: example_destination example_mkdir)
  have h: "hub_fails (download_request ''org/example-model'' (destination example_world ''example''))
             example_tree = (Some (Exception ''404 Client Error''), example_tree)"
    by (simp add: hub_fails_def)
  from hub_error_reported [where hub = hub_fails, OF example_parse mk h] show ?thesis
    by (simp add: example_parse example_destination example_trace)
qed

text \<open>
  Claim C3. When the call of \<open>snapshot_download\<close> returns, the process prints
  \<open>Successfully downloaded {model}\<close> as its last line and exits with status 0.
\<close>

theorem hub_success_reported:
  assumes "parse_args args = Namespace m out"
    and "Path_mkdir (tree w) (cwd w) (Path (destination w out)) True True = (None, t1)"
    and "hub (download_request m (destination w out)) t1 = (None, t2)"
  shows "fst (script hub args w) = Exited 0 \<and>
         trace (snd (script hub args w)) =
           trace w @
           [Stdout (''Downloading '' @ m @ '' to '' @ destination w out @ ''...''),
            Mkdir (destination w out) True True,
            Snapshot_download (download_request m (destination w out)),
            Stdout (''Successfully downloaded '' @ m)]"
  using assms by (simp add: script_parsed download_model_hub_returns)

theorem hub_success_reported_witness:
  "parse_args example_args = Namespace ''org/example-model'' ''example'' \<and>
   fst (script hub_ok example_args example_world) = Exited 0 \<and>
   trace (snd (script hub_ok example_args example_world)) =
     [Stdout ''Downloading org/example-model to /data/example...'',
      Mkdir ''/data/example'' True True,
      Snapshot_download (download_request ''org/example-model'' ''/data/example''),
      Stdout ''Successfully downloaded org/example-model'']"
proof -
  have h: "hub_ok (download_request ''org/example-model'' (destination example_world ''example''))
             example_tree = (None, example_tree)"
    by (simp add: hub_ok_def)
  from hub_success_reported [where hub = hub_ok, OF example_parse example_mkdir_destination h]
  show ?thesis
    by (simp add: example_parse example_destination example_trace)
qed

subsection \<open>The directory creation\<close>

text \<open>
  Claim C4 says that a destination that does not exist is always created. It is not
  when the creation raises: with a root directory that is not writable, the
  destination \<open>/data/example\<close> does not exist, is not there after the run either, and
  the run ends with status 1.
\<close>

theorem creation_can_fail_counterexample:
  "parse_args example_args = Namespace ''org/example-model'' ''example'' \<and>
   destination readonly_world ''example'' = ''/data/example'' \<and>
   \<not> path_exists (tree readonly_world) (cwd readonly_world) (Path ''/data/example'') \<and>
   \<not> is_dir (tree (snd (script hub_ok example_args readonly_world)))
        (cwd (snd (script hub_ok example_args readonly_world))) (Path ''/data/example'') \<and>
   fst (script hub_ok example_args readonly_world) = Exited 1"
proof -
  have mk: "Path_mkdir (tree readonly_world) (cwd readonly_world)
              (Path (destination readonly_world ''example'')) True True =
            (Some (OSError EACCES ''/data''), tree readonly_world)"
    by (simp add: readonly_destination readonly_mkdir)
  have run: "script hub_ok example_args readonly_world =
      (Exited 1, readonly_world\<lparr>trace := trace readonly_world @
         [Stdout (''Downloading org/example-model to '' @ destination readonly_world ''example'' @ ''...''),
          Mkdir (destination readonly_world ''example'') True True,
          Stdout (''Error downloading org/example-model: '' @ str_exn (OSError EACCES ''/data''))]\<rparr>)"
    by (simp add: script_parsed [OF example_parse] download_model_mkdir_raises [OF mk])
  have "\<not> path_exists (tree readonly_world) (cwd readonly_world) (Path ''/data/example'')"
    by (simp add: Path_example readonly_world_def example_world_def path_exists_def start_of_def)
  moreover
  have "\<not> is_dir (tree readonly_world) (cwd readonly_world) (Path ''/data/example'')"
    by (simp add: Path_example readonly_world_def example_world_def is_dir_def start_of_def)
  ultimately show ?thesis
    by (simp add: run example_parse readonly_destination)
qed

text \<open>
  Claim C4, amended. When the destination does not exist and its creation does not
  raise, the destination and every one of its parents are directories afterwards,
  nothing that was in the tree is lost, and it is this tree that the download is
  handed: the request for the directory precedes the call of \<open>snapshot_download\<close> in
  the trace.
\<close>

theorem directory_created_before_download:
  assumes "parse_args args = Namespace m out"
    and "\<not> path_exists (tree w) (cwd w) (Path (destination w out))"
    and "Path_mkdir (tree w) (cwd w) (Path (destination w out)) True True = (None, t1)"
  shows "is_dir t1 (cwd w) (Path (destination w out)) \<and>
         list_all (is_dir t1 (cwd w)) (parents_of (Path (destination w out))) \<and>
         tree w \<subseteq>\<^sub>m t1 \<and> t1 \<noteq> tree w \<and>
         (\<exists>rest. trace (snd (script hub args w)) =
            trace w @
            [Stdout (''Downloading '' @ m @ '' to '' @ destination w out @ ''...''),
             Mkdir (destination w out) True True,
             Snapshot_download (download_request m (destination w out))] @ rest \<and>
            downloads rest = []) \<and>
         tree (snd (script hub args w)) =
           snd (hub (download_request m (destination w out)) t1)"
proof -
  let ?p = "Path (destination w out)"
  from Path_mkdir_creates [OF assms(3)]
  have d: "is_dir t1 (cwd w) ?p" and le: "tree w \<subseteq>\<^sub>m t1" by simp_all
  from assms(2) have "\<not> is_dir (tree w) (cwd w) ?p"
    by (auto simp: path_exists_def is_dir_def split: sum.splits option.splits node.splits)
  with d have ne: "t1 \<noteq> tree w" by auto
  from d have "list_all (is_dir t1 (cwd w)) (parents_of ?p)"
    by (rule is_dir_parents_of)
  with d le ne download_model_after_mkdir [OF assms(3), of hub m] assms(1) show ?thesis
    by (simp add: snd_script_parsed)
qed

theorem directory_created_before_download_witness:
  "parse_args example_args = Namespace ''org/example-model'' ''example'' \<and>
   \<not> path_exists (tree example_world) (cwd example_world) (Path ''/data/example'') \<and>
   Path_mkdir (tree example_world) (cwd example_world) (Path ''/data/example'') True True =
     (None, example_tree) \<and>
   is_dir example_tree (cwd example_world) (Path ''/data/example'') \<and>
   list_all (is_dir example_tree (cwd example_world)) (parents_of (Path ''/data/example'')) \<and>
   tree (snd (script hub_ok example_args example_world)) = example_tree"
proof -
  have "\<not> path_exists (tree example_world) (cwd example_world) (Path ''/data/example'')"
    by (simp add: Path_example example_world_def path_exists_def start_of_def)
  then have ne: "\<not> path_exists (tree example_world) (cwd example_world)
              (Path (destination example_world ''example''))"
    by (simp add: example_destination)
  from directory_created_before_download
         [where hub = hub_ok, OF example_parse ne example_mkdir_destination]
  show ?thesis
    using ne by (simp add: example_parse example_destination example_mkdir hub_ok_def)
qed

text \<open>
  Claim C5. When the destination already is a directory, the creation step raises
  nothing and changes nothing but the trace, and the run goes on to the download,
  which is handed the file tree as it was.
\<close>

theorem existing_directory_kept:
  assumes "parse_args args = Namespace m out"
    and "is_dir (tree w) (cwd w) (Path (destination w out))"
  shows "mkdir (destination w out) True True w =
           (None, log (Mkdir (destination w out) True True) w) \<and>
         downloads (trace (snd (script hub args w))) =
           downloads (trace w) @ [download_request m (destination w out)] \<and>
         tree (snd (script hub args w)) =
           snd (hub (download_request m (destination w out)) (tree w))"
proof -
  let ?d = "destination w out"
  from assms(2) have mk: "Path_mkdir (tree w) (cwd w) (Path ?d) True True = (None, tree w)"
    by (rule Path_mkdir_existing)
  then have "mkdir ?d True True w = (None, log (Mkdir ?d True True) w)"
    by (simp add: mkdir_def log_def Let_def)
  moreover from download_model_after_mkdir [OF mk, of hub m] assms(1)
  have "downloads (trace (snd (script hub args w))) =
          downloads (trace w) @ [download_request m ?d] \<and>
        tree (snd (script hub args w)) = snd (hub (download_request m ?d) (tree w))"
    by (auto simp: snd_script_parsed downloads_append)
  ultimately show ?thesis by simp
qed

theorem existing_directory_kept_witness:
  "parse_args example_args = Namespace ''org/example-model'' ''example'' \<and>
   is_dir (tree prepared_world) (cwd prepared_world) (Path ''/data/example'') \<and>
   mkdir ''/data/example'' True True prepared_world =
     (None, log (Mkdir ''/data/example'' True True) prepared_world) \<and>
   downloads (trace (snd (script hub_ok example_args prepared_world))) =
     [download_request ''org/example-model'' ''/data/example'']"
proof -
  have d: "is_dir (tree prepared_world) (cwd prepared_world)
             (Path (destination prepared_world ''example''))"
    by (simp add: prepared_destination prepared_is_dir)
  have tr: "trace prepared_world = []"
    by (simp add: prepared_world_def example_world_def)
  from existing_directory_kept [where hub = hub_ok, OF example_parse d] show ?thesis
    by (simp add: example_parse prepared_destination prepared_is_dir tr)
qed

subsection \<open>The call of the collaborator\<close>

text \<open>
  Claim C6. A run that gets past the creation of the directory calls
  \<open>snapshot_download\<close> with the model identifier as \<open>repo_id\<close>, the destination as
  \<open>local_dir\<close>, \<open>local_dir_use_symlinks=False\<close> and \<open>resume_download=True\<close>: this is the
  one call in the trace, the tree that the run leaves is the one the collaborator
  leaves when it is given these arguments and the tree after the creation, and the
  run ends as the collaborator's answer to them decides.
\<close>

theorem delegate_arguments:
  assumes "parse_args args = Namespace m out"
    and "Path_mkdir (tree w) (cwd w) (Path (destination w out)) True True = (None, t1)"
  shows "downloads (trace (snd (script hub args w))) =
           downloads (trace w) @
           [\<lparr>repo_id = m, local_dir = destination w out,
             local_dir_use_symlinks = False, resume_download = True\<rparr>] \<and>
         tree (snd (script hub args w)) =
           snd (hub \<lparr>repo_id = m, local_dir = destination w out,
                     local_dir_use_symlinks = False, resume_download = True\<rparr> t1) \<and>
         fst (script hub args w) =
           (case fst (hub \<lparr>repo_id = m, local_dir = destination w out,
                           local_dir_use_symlinks = False, resume_download = True\<rparr> t1) of
              None \<Rightarrow> Exited 0
            | Some (SystemExit code) \<Rightarrow> Exited code
            | Some e \<Rightarrow> if is_Exception e then Exited 1 else Killed e)"
proof -
  obtain r t2 where h: "hub (download_request m (destination w out)) t1 = (r, t2)"
    by (cases "hub (download_request m (destination w out)) t1")
  then have h': "hub \<lparr>repo_id = m, local_dir = destination w out,
                     local_dir_use_symlinks = False, resume_download = True\<rparr> t1 = (r, t2)"
    by (simp add: download_request_def)
  show ?thesis
  proof (cases r)
    case None
    with assms h show ?thesis
      unfolding h'
      by (simp add: script_parsed download_model_hub_returns downloads_append
            download_request_def)
  next
    case (Some e)
    with assms h show ?thesis
      unfolding h'
      by (cases e)
         (simp_all add: script_parsed download_model_hub_raises downloads_append
            download_request_def)
  qed
qed

theorem delegate_arguments_witness:
  "parse_args example_args = Namespace ''org/example-model'' ''example'' \<and>
   Path_mkdir (tree example_world) (cwd example_world) (Path ''/data/example'') True True =
     (None, example_tree) \<and>
   downloads (trace (snd (script hub_checks example_args example_world))) =
     [\<lparr>repo_id = ''org/example-model'', local_dir = ''/data/example'',
       local_dir_use_symlinks = False, resume_download = True\<rparr>] \<and>
   tree (snd (script hub_checks example_args example_world)) =
     example_tree([''data'', ''example'', ''config.json''] \<mapsto> Regular_file) \<and>
   fst (script hub_checks example_args example_world) = Exited 0"
  using delegate_arguments [where hub = hub_checks, OF example_parse example_mkdir_destination]
    example_checks
  by (simp add: example_parse example_destination example_trace example_mkdir
        download_request_def)

subsection \<open>Missing arguments\<close>

text \<open>
  Claim C7 says that a run without \<open>--model\<close> or \<open>--output\<close> exits with a status
  that is not zero. The run with the single argument \<open>--help\<close> gives neither option,
  prints the help and exits with status 0.
\<close>

theorem help_exits_zero_counterexample:
  "\<not> names_option ''--model'' ''--help'' \<and> \<not> names_option ''--output'' ''--help'' \<and>
   script hub_ok [''--help''] example_world =
     (Exited 0, example_world\<lparr>trace := [Argparse Help_message]\<rparr>)"
proof -
  have "parse_args [''--help''] = Parser_exit 0 Help_message"
    by code_simp
  then show ?thesis
    by (simp add: script_parser_exit names_option_def startswith_def example_trace)
qed

text \<open>
  Claim C7, amended. When no argument gives \<open>--model\<close>, or none gives \<open>--output\<close>
  (in full, abbreviated, or with \<open>=\<close> and a value), the process exits in the argument
  parser: the world is as before but for what the parser printed, so no directory
  was asked for and no download was requested. The status is 2, or it is 0 when the
  parser printed the help, which takes an argument that asks for it.
\<close>

theorem missing_flag_exits:
  assumes "(\<forall>a\<in>set args. \<not> names_option ''--model'' a) \<or>
           (\<forall>a\<in>set args. \<not> names_option ''--output'' a)"
  shows "\<exists>status msg.
           script hub args w = (Exited status, w\<lparr>trace := trace w @ [Argparse msg]\<rparr>) \<and>
           (status = 2 \<or> status = 0 \<and> msg = Help_message \<and> (\<exists>a\<in>set args. asks_help a))"
proof (cases "parse_args args")
  case (Namespace m out)
  from parse_args_Namespace [OF this] assms show ?thesis by blast
next
  case (Parser_exit st msg)
  from parse_args_Parser_exit [OF this] script_parser_exit [OF Parser_exit, of hub w]
  show ?thesis by blast
qed

theorem missing_flag_exits_witness:
  "\<not> names_option ''--output'' ''--model'' \<and>
   \<not> names_option ''--output'' ''org/example-model'' \<and>
   \<not> asks_help ''--model'' \<and> \<not> asks_help ''org/example-model'' \<and>
   script hub_ok [''--model'', ''org/example-model''] example_world =
     (Exited 2, example_world\<lparr>trace :=
        [Argparse (Usage_error (Arguments_required [Store_output]))]\<rparr>)"
proof -
  have n: "\<forall>a\<in>set [''--model'', ''org/example-model'']. \<not> names_option ''--output'' a"
    by (simp add: names_option_def startswith_def)
  have h: "\<forall>a\<in>set [''--model'', ''org/example-model'']. \<not> asks_help a"
    by (simp add: asks_help_def names_option_def startswith_def)
  have p: "parse_args [''--model'', ''org/example-model''] =
             Parser_exit 2 (Usage_error (Arguments_required [Store_output]))"
    by code_simp
  from missing_flag_exits [where hub = hub_ok and w = example_world, OF disjI2, OF n] n h
  show ?thesis
    by (simp add: script_parser_exit [OF p] example_trace)
qed

subsection \<open>No retry\<close>

text \<open>
  Claim C8. Whatever the arguments, the environment, the file tree and the behaviour
  of the collaborator, a run calls \<open>snapshot_download\<close> at most once: there is no
  retry after a failure.
\<close>

theorem download_at_most_once:
  "length (downloads (trace (snd (script hub args w)))) \<le> Suc (length (downloads (trace w)))"
proof (cases "parse_args args")
  case (Namespace m out)
  obtain rest where "trace (snd (download_model hub m (destination w out) w)) =
      trace w @ [Stdout (''Downloading '' @ m @ '' to '' @ destination w out @ ''...''),
                 Mkdir (destination w out) True True] @ rest"
    and "downloads rest = [] \<or> downloads rest = [download_request m (destination w out)]"
    using download_model_trace [of hub m "destination w out" w] by blast
  with Namespace show ?thesis
    by (auto simp: snd_script_parsed downloads_append)
next
  case (Parser_exit status out)
  then show ?thesis
    by (simp add: script_parser_exit downloads_append)
qed

subsection \<open>Errors of the directory creation\<close>

text \<open>
  Claim C9. When the creation of the destination directory raises an error, whichever
  instance of \<open>Exception\<close> it is (an error of the file tree, or any other that the
  system raises, such as a name that is too long), the error is caught like an error
  of the download: the process prints \<open>Error downloading {model}: {cause}\<close> and exits
  with status 1, and the world is as the creation left it but for that line, so
  \<open>snapshot_download\<close> is not called. The creation is any step on the world; with
  \<open>mkdir\<close> for it the run is the run of the script.
\<close>

theorem mkdir_error_reported:
  assumes "parse_args args = Namespace m out"
    and "creation (destination w out) True True
           (log (Stdout (''Downloading '' @ m @ '' to '' @ destination w out @ ''...'')) w) =
         (Some e, w1)"
    and "is_Exception e"
  shows "script_by mkdir hub args w = script hub args w \<and>
         script_by creation hub args w =
           (Exited 1, log (Stdout (''Error downloading '' @ m @ '': '' @ str_exn e)) w1) \<and>
         downloads (trace (snd (script_by creation hub args w))) = downloads (trace w1)"
  using assms
  by (simp add: script_by_mkdir script_by_parsed download_model_by_creation_raises log_def
        downloads_append)

theorem mkdir_error_reported_witness:
  "parse_args example_args = Namespace ''org/example-model'' ''example'' \<and>
   is_Exception (OSError EACCES ''/data'') \<and>
   is_Exception (OSError ENAMETOOLONG ''/data/example'') \<and>
   fst (script hub_ok example_args readonly_world) = Exited 1 \<and>
   trace (snd (script hub_ok example_args readonly_world)) =
     [Stdout ''Downloading org/example-model to /data/example...'',
      Mkdir ''/data/example'' True True,
      Stdout (''Error downloading org/example-model: [Errno 13] Permission denied: '' @
              [CHR 0x27] @ ''/data'' @ [CHR 0x27])] \<and>
   fst (script_by refused_creation hub_ok example_args example_world) = Exited 1 \<and>
   trace (snd (script_by refused_creation hub_ok example_args example_world)) =
     [Stdout ''Downloading org/example-model to /data/example...'',
      Mkdir ''/data/example'' True True,
      Stdout (''Error downloading org/example-model: [Errno 36] File name too long: '' @
              [CHR 0x27] @ ''/data/example'' @ [CHR 0x27])]"
proof -
  let ?line = "Stdout ''Downloading org/example-model to /data/example...''"
  have d: "''Downloading '' @ ''org/example-model'' @ '' to '' @
             destination readonly_world ''example'' @ ''...'' =
           ''Downloading org/example-model to /data/example...''"
    by (simp add: readonly_destination)
  have d': "''Downloading '' @ ''org/example-model'' @ '' to '' @
             destination example_world ''example'' @ ''...'' =
           ''Downloading org/example-model to /data/example...''"
    by (simp add: example_destination)
  have mk: "mkdir (destination readonly_world ''example'') True True
              (log (Stdout (''Downloading '' @ ''org/example-model'' @ '' to '' @
                 destination readonly_world ''example'' @ ''...'')) readonly_world) =
      (Some (OSError EACCES ''/data''),
       readonly_world\<lparr>trace := [?line, Mkdir ''/data/example'' True True]\<rparr>)"
    unfolding d readonly_destination using readonly_mkdir
    by (simp add: mkdir_def log_def Let_def readonly_trace)
  have rf: "refused_creation (destination example_world ''example'') True True
              (log (Stdout (''Downloading '' @ ''org/example-model'' @ '' to '' @
                 destination example_world ''example'' @ ''...'')) example_world) =
      (Some (OSError ENAMETOOLONG ''/data/example''),
       example_world\<lparr>trace := [?line, Mkdir ''/data/example'' True True]\<rparr>)"
    unfolding d' example_destination
    by (simp add: refused_creation_def Path_example str_path_def log_def example_trace)
  have os: "is_Exception (OSError err name)" for err name
    by simp
  have one: "script hub_ok example_args readonly_world =
      (Exited 1, log (Stdout (''Error downloading '' @ ''org/example-model'' @ '': '' @
                        str_exn (OSError EACCES ''/data'')))
                   (readonly_world\<lparr>trace := [?line, Mkdir ''/data/example'' True True]\<rparr>))"
    using mkdir_error_reported [where hub = hub_ok and creation = mkdir,
            OF example_parse mk os]
    by (elim conjE) (rule trans [OF sym])
  have two: "script_by refused_creation hub_ok example_args example_world =
      (Exited 1, log (Stdout (''Error downloading '' @ ''org/example-model'' @ '': '' @
                        str_exn (OSError ENAMETOOLONG ''/data/example'')))
                   (example_world\<lparr>trace := [?line, Mkdir ''/data/example'' True True]\<rparr>))"
    using mkdir_error_reported [where hub = hub_ok and creation = refused_creation,
            OF example_parse rf os]
    by (elim conjE)
  show ?thesis
    unfolding one two
    by (simp add: example_parse log_def repr_data repr_data_example)
qed

subsection \<open>The destination does not depend on the model\<close>

text \<open>
  Claim C10. Two runs with the same \<open>--output\<close> and the same \<open>MODELS_DIR\<close> ask for
  the same directory and download into it, whatever their \<open>--model\<close>, their file
  trees and their collaborators; and when \<open>--output\<close> is an absolute path, that
  directory is the \<open>--output\<close> value itself.
\<close>

theorem destination_ignores_model:
  assumes "parse_args args1 = Namespace m1 out"
    and "parse_args args2 = Namespace m2 out"
    and "environ w1 ''MODELS_DIR'' = environ w2 ''MODELS_DIR''"
  shows "\<exists>d. mkdirs (trace (snd (script hub1 args1 w1))) = mkdirs (trace w1) @ [d] \<and>
             mkdirs (trace (snd (script hub2 args2 w2))) = mkdirs (trace w2) @ [d] \<and>
             list_all (\<lambda>c. local_dir c = d)
               (drop (length (downloads (trace w1))) (downloads (trace (snd (script hub1 args1 w1))))) \<and>
             list_all (\<lambda>c. local_dir c = d)
               (drop (length (downloads (trace w2))) (downloads (trace (snd (script hub2 args2 w2))))) \<and>
             (startswith out ''/'' \<longrightarrow> d = out)"
proof -
  have d: "destination w1 out = destination w2 out"
    using assms(3) by (simp add: destination_def environ_get_def)
  have run: "mkdirs (trace (snd (download_model hub m (destination w out) w))) =
               mkdirs (trace w) @ [destination w out] \<and>
             list_all (\<lambda>c. local_dir c = destination w out)
               (drop (length (downloads (trace w)))
                  (downloads (trace (snd (download_model hub m (destination w out) w)))))"
    for hub m w
  proof -
    obtain rest where "trace (snd (download_model hub m (destination w out) w)) =
        trace w @ [Stdout (''Downloading '' @ m @ '' to '' @ destination w out @ ''...''),
                   Mkdir (destination w out) True True] @ rest"
      and "mkdirs rest = []"
      and "downloads rest = [] \<or> downloads rest = [download_request m (destination w out)]"
      using download_model_trace [of hub m "destination w out" w] by blast
    then show ?thesis
      by (auto simp: mkdirs_append downloads_append download_request_def)
  qed
  have "startswith out ''/'' \<longrightarrow> destination w1 out = out"
    by (simp add: destination_def path_join_def)
  with run [of hub1 m1 w1] run [of hub2 m2 w2] assms(1,2) d show ?thesis
    by (auto simp: snd_script_parsed)
qed

theorem destination_ignores_model_witness:
  "parse_args absolute_args = Namespace ''org/example-model'' ''/srv/example'' \<and>
   parse_args other_absolute_args = Namespace ''org/other-model'' ''/srv/example'' \<and>
   environ example_world ''MODELS_DIR'' = environ readonly_world ''MODELS_DIR'' \<and>
   startswith ''/srv/example'' ''/'' \<and>
   mkdirs (trace (snd (script hub_ok absolute_args example_world))) = [''/srv/example''] \<and>
   mkdirs (trace (snd (script hub_fails other_absolute_args readonly_world))) =
     [''/srv/example'']"
proof -
  have e: "environ example_world ''MODELS_DIR'' = environ readonly_world ''MODELS_DIR''"
    by (simp add: readonly_world_def)
  have tr: "trace readonly_world = []"
    by (simp add: readonly_world_def example_world_def)
  have s: "startswith ''/srv/example'' ''/''"
    by (simp add: startswith_def)
  from destination_ignores_model [where ?hub1.0 = hub_ok and ?hub2.0 = hub_fails,
         OF absolute_parse other_absolute_parse e] e s
  show ?thesis
    by (auto simp: absolute_parse other_absolute_parse example_trace tr)
qed

end
